theory Spec2Isabelle
  imports Complex_Main "HOL-Library.Monad_Syntax" "HOL-Library.Signed_Division"
begin

section \<open>Go values\<close>

text \<open>
  A Go string is a sequence of bytes, and so is an Isabelle \<open>string\<close>: \<open>len\<close> counts
  bytes and slicing cuts between bytes. A Go \<open>int\<close> is modelled as \<open>int\<close>; the only
  integers of the program are lengths, indices and counters, far from the 64-bit bounds.
  A \<open>float64\<close> is modelled as a \<open>real\<close>: comparisons are those of the program, rounding
  is not modelled.

  Indexing and slicing panic out of range. The panic is the value \<open>None\<close>.
\<close>

definition len :: "'a list \<Rightarrow> int" where
  "len xs = int (length xs)"

definition index :: "'a list \<Rightarrow> int \<Rightarrow> 'a option" where
  \<comment> \<open>\<open>xs[i]\<close>\<close>
  "index xs i = (if 0 \<le> i \<and> i < len xs then Some (xs ! nat i) else None)"

definition store :: "'a list \<Rightarrow> int \<Rightarrow> 'a \<Rightarrow> 'a list option" where
  \<comment> \<open>\<open>xs[i] = v\<close>\<close>
  "store xs i v = (if 0 \<le> i \<and> i < len xs then Some (xs[nat i := v]) else None)"

definition sliceTo :: "'a list \<Rightarrow> int \<Rightarrow> 'a list option" where
  \<comment> \<open>\<open>xs[:n]\<close>\<close>
  "sliceTo xs n = (if 0 \<le> n \<and> n \<le> len xs then Some (take (nat n) xs) else None)"

definition sliceFrom :: "'a list \<Rightarrow> int \<Rightarrow> 'a list option" where
  \<comment> \<open>\<open>xs[n:]\<close>\<close>
  "sliceFrom xs n = (if 0 \<le> n \<and> n \<le> len xs then Some (drop (nat n) xs) else None)"

definition goMod :: "int \<Rightarrow> int \<Rightarrow> int option" where
  \<comment> \<open>\<open>a % b\<close>: the remainder of the truncated division; a zero divisor panics\<close>
  "goMod a b = (if b = 0 then None else Some (a smod b))"

definition truncInt :: "real \<Rightarrow> int" where
  \<comment> \<open>\<open>int(v)\<close> of a float: the fraction is discarded\<close>
  "truncInt v = (if 0 \<le> v then \<lfloor>v\<rfloor> else \<lceil>v\<rceil>)"

section \<open>The functions of package strings that the program calls\<close>

text \<open>
  The standard library works on UTF-8 code points. The model covers the ASCII range,
  where a code point is a byte: everything the rings can type is ASCII. Bytes from
  \<open>0x80\<close> on are letters without case that are no white space.
\<close>

definition isUpperByte :: "char \<Rightarrow> bool" where
  "isUpperByte c = (65 \<le> (of_char c :: nat) \<and> (of_char c :: nat) \<le> 90)"

definition toLowerByte :: "char \<Rightarrow> char" where
  "toLowerByte c = (if isUpperByte c then char_of ((of_char c :: nat) + 32) else c)"

definition ToLower :: "string \<Rightarrow> string" where
  "ToLower s = map toLowerByte s"

definition isSpace :: "char \<Rightarrow> bool" where
  \<comment> \<open>tab, line feed, vertical tab, form feed, carriage return, space\<close>
  "isSpace c = ((of_char c :: nat) \<in> {9, 10, 11, 12, 13, 32})"

fun HasPrefix :: "string \<Rightarrow> string \<Rightarrow> bool" where
  "HasPrefix s [] = True"
| "HasPrefix [] (p # ps) = False"
| "HasPrefix (c # cs) (p # ps) = (c = p \<and> HasPrefix cs ps)"

fun fieldsFrom :: "(char \<Rightarrow> bool) \<Rightarrow> string \<Rightarrow> string \<Rightarrow> string list" where
  \<comment> \<open>the second argument is the field being read\<close>
  "fieldsFrom f cur [] = (if cur = [] then [] else [cur])"
| "fieldsFrom f cur (c # cs) =
     (if f c then (if cur = [] then fieldsFrom f [] cs else cur # fieldsFrom f [] cs)
      else fieldsFrom f (cur @ [c]) cs)"

definition FieldsFunc :: "string \<Rightarrow> (char \<Rightarrow> bool) \<Rightarrow> string list" where
  \<comment> \<open>the maximal runs of bytes that do not satisfy \<open>f\<close>; no field is empty\<close>
  "FieldsFunc s f = fieldsFrom f [] s"

definition Fields :: "string \<Rightarrow> string list" where
  "Fields s = FieldsFunc s isSpace"

definition TrimLeft :: "string \<Rightarrow> string \<Rightarrow> string" where
  "TrimLeft s cutset = dropWhile (\<lambda>c. c \<in> set cutset) s"

definition TrimRight :: "string \<Rightarrow> string \<Rightarrow> string" where
  "TrimRight s cutset = rev (dropWhile (\<lambda>c. c \<in> set cutset) (rev s))"

definition TrimSpace :: "string \<Rightarrow> string" where
  "TrimSpace s = rev (dropWhile isSpace (rev (dropWhile isSpace s)))"

section \<open>The transition model\<close>

text \<open>
  Modelled from the spec: the chain of package gomarkov (\<open>NewChain\<close>, \<open>Add\<close>,
  \<open>Generate\<close>), which is a dependency and not part of the sources. The spec describes it
  as a mapping from a context token to a sampling distribution over next tokens, built
  from every two-word adjacency ever observed, of order 1, where insertion order within a
  context is preserved and a repeated adjacency increases the weight of its next token.
  The model keeps the adjacencies in the order they were observed: the next tokens of a
  context are the second components of its adjacencies, each as often as it was observed.
\<close>

type_synonym Chain = "(string \<times> string) list"

definition NewChain :: Chain where
  "NewChain = []"

definition adjacencies :: "string list \<Rightarrow> (string \<times> string) list" where
  "adjacencies ws = zip ws (tl ws)"

definition Add :: "Chain \<Rightarrow> string list \<Rightarrow> Chain" where
  "Add ch ws = ch @ adjacencies ws"

definition nextTokens :: "Chain \<Rightarrow> string \<Rightarrow> string list" where
  "nextTokens ch ctx = map snd (filter (\<lambda>p. fst p = ctx) ch)"

definition contextTokens :: "Chain \<Rightarrow> string set" where
  "contextTokens ch = fst ` set ch"

definition Generate :: "Chain \<Rightarrow> string \<Rightarrow> nat \<Rightarrow> string option" where
  \<comment> \<open>\<open>None\<close> is the error for a context that was never observed; the number is the
      random draw\<close>
  "Generate ch ctx r =
     (let nexts = nextTokens ch ctx
      in if nexts = [] then None else Some (nexts ! (r mod length nexts)))"

section \<open>The state\<close>

text \<open>
  What the program does to the outside is kept as a log of calls, in order: key taps and
  typed strings (package robotgo), appends to the raw text file and rewrites of the
  training file. The program logs a failure of a file write and goes on, so the result of
  a write is not part of the state.
\<close>

datatype effect =
    KeyTap string
  | TypeStr string
  | AppendRaw string
  | SaveTraining "string list list"

text \<open>
  The fields of \<open>Game\<close> that the decoder and the predictor use. The fields of the window,
  of the visibility and of the gamepad bookkeeping are left out: no modelled function
  reads them. \<open>markovChain\<close> is a pointer: \<open>None\<close> is nil. \<open>wordFrequency\<close> is a map to
  counters that are only ever incremented, so a key is in the map exactly when its count
  is positive.
\<close>

record Game =
  currentSet :: int
  selectedRing :: int
  selectedIndex :: int
  joystickAngle :: real
  lastButtonTime :: int
  uppercase :: bool
  markovChain :: "Chain option"
  currentSentence :: "string list"
  trainingData :: "string list list"
  nextPrediction :: string
  wordFrequency :: "string \<Rightarrow> nat"
  effects :: "effect list"

text \<open>
  \<open>Generate\<close> draws a random number and a Go map is ranged over in an order that the
  language leaves open. Each call of \<open>updatePrediction\<close> gets both from outside.
\<close>

record predEnv =
  randN :: nat
  mapOrder :: "string list"

section \<open>updatePrediction\<close>

fun bestMatchLoop :: "(string \<Rightarrow> nat) \<Rightarrow> string \<Rightarrow> string list \<Rightarrow> string \<times> nat \<Rightarrow> string \<times> nat" where
  \<comment> \<open>\<open>for word, freq := range g.wordFrequency\<close>, with \<open>(bestMatch, maxFrequency)\<close>\<close>
  "bestMatchLoop fr lowerCurrent [] acc = acc"
| "bestMatchLoop fr lowerCurrent (word # rest) (bestMatch, maxFrequency) =
     (if 0 < fr word \<and> HasPrefix word lowerCurrent \<and> word \<noteq> lowerCurrent \<and> fr word > maxFrequency
      then bestMatchLoop fr lowerCurrent rest (word, fr word)
      else bestMatchLoop fr lowerCurrent rest (bestMatch, maxFrequency))"

definition fallbackPrediction :: "string \<Rightarrow> string" where
  "fallbackPrediction contextWord =
     (if len contextWord \<le> 3
      then (let commonFollowUps = [''the'', ''a'', ''is'', ''are'', ''and'', ''to'', ''in'', ''it'', ''that'', ''of'']
            in if len commonFollowUps > 0 then hd commonFollowUps else [])
      else ''the'')"

definition updatePrediction :: "predEnv \<Rightarrow> Game \<Rightarrow> Game option" where
  "updatePrediction env g =
     (case markovChain g of
        None \<Rightarrow> Some (g\<lparr>nextPrediction := []\<rparr>)
      | Some ch \<Rightarrow>
          if len (currentSentence g) = 0 then
            (case Generate ch [] (randN env) of
               Some next \<Rightarrow>
                 if next \<noteq> [] then Some (g\<lparr>nextPrediction := next\<rparr>)
                 else Some (g\<lparr>nextPrediction := []\<rparr>)
             | None \<Rightarrow> Some (g\<lparr>nextPrediction := []\<rparr>))
          else do {
            currentWord \<leftarrow> index (currentSentence g) (len (currentSentence g) - 1);
            ctx \<leftarrow>
              (if currentWord = [] \<and> len (currentSentence g) > 1 then do {
                 w \<leftarrow> index (currentSentence g) (len (currentSentence g) - 2);
                 Some (w, False) }
               else if currentWord \<noteq> [] then
                 (if len (currentSentence g) > 1 then do {
                    w \<leftarrow> index (currentSentence g) (len (currentSentence g) - 2);
                    Some (w, True) }
                  else Some (currentWord, True))
               else Some ([], False));
            (case ctx of (contextWord, isPartialWord) \<Rightarrow>
              if contextWord \<noteq> [] \<or> isPartialWord then
                (if \<not> isPartialWord \<or> len (currentSentence g) > 1 then
                   (case Generate ch contextWord (randN env) of
                      Some next \<Rightarrow>
                        if next \<noteq> [] then Some (g\<lparr>nextPrediction := next\<rparr>)
                        else Some (g\<lparr>nextPrediction := fallbackPrediction contextWord\<rparr>)
                    | None \<Rightarrow> Some (g\<lparr>nextPrediction := fallbackPrediction contextWord\<rparr>))
                 else if isPartialWord \<and> currentWord \<noteq> [] then
                   (let lowerCurrent = ToLower currentWord;
                        best = bestMatchLoop (wordFrequency g) lowerCurrent (mapOrder env) ([], 0)
                    in if fst best \<noteq> [] then Some (g\<lparr>nextPrediction := fst best\<rparr>)
                       else Some (g\<lparr>nextPrediction := []\<rparr>))
                 else Some g)
              else Some (g\<lparr>nextPrediction := []\<rparr>))
          })"

section \<open>The sentence buffer\<close>

definition backspaceSentence :: "string list \<Rightarrow> string list option" where
  \<comment> \<open>the tracking of a backspace, the same statements under the delete token of a ring
      and under button B\<close>
  "backspaceSentence cs =
     (if len cs > 0 then do {
        lastWord \<leftarrow> index cs (len cs - 1);
        if len lastWord > 0 then do {
          w \<leftarrow> sliceTo lastWord (len lastWord - 1);
          cs1 \<leftarrow> store cs (len cs - 1) w;
          e \<leftarrow> index cs1 (len cs1 - 1);
          if e = [] then sliceTo cs1 (len cs1 - 1) else Some cs1 }
        else Some cs }
      else Some cs)"

fun incrementNonEmpty :: "string list \<Rightarrow> (string \<Rightarrow> nat) \<Rightarrow> (string \<Rightarrow> nat)" where
  \<comment> \<open>the loop over the words of a committed sentence: \<open>if word != "" { g.wordFrequency[strings.ToLower(word)]++ }\<close>\<close>
  "incrementNonEmpty [] fr = fr"
| "incrementNonEmpty (word # rest) fr =
     (if word \<noteq> [] then incrementNonEmpty rest (fr(ToLower word := fr (ToLower word) + 1))
      else incrementNonEmpty rest fr)"

definition enterSentence :: "Game \<Rightarrow> Game option" where
  \<comment> \<open>the statements of a new line, the same under the enter token of a ring and under
      button Y; a nil chain panics in \<open>Add\<close>\<close>
  "enterSentence g =
     (let g1 = g\<lparr>effects := effects g @ [KeyTap ''enter'', AppendRaw [CHR 0x0A]]\<rparr>
      in if len (currentSentence g1) > 1 then
           (case markovChain g1 of
              None \<Rightarrow> None
            | Some ch \<Rightarrow>
                (let g2 = g1\<lparr>markovChain := Some (Add ch (currentSentence g1)),
                             trainingData := trainingData g1 @ [currentSentence g1],
                             wordFrequency := incrementNonEmpty (currentSentence g1) (wordFrequency g1)\<rparr>;
                     g3 = g2\<lparr>effects := effects g2 @ [SaveTraining (trainingData g2)]\<rparr>
                 in Some (g3\<lparr>currentSentence := []\<rparr>)))
         else Some (g1\<lparr>currentSentence := []\<rparr>))"

definition trackBackspace :: "predEnv \<Rightarrow> Game \<Rightarrow> Game option" where
  \<comment> \<open>\<open>robotgo.KeyTap("backspace")\<close>, the tracking, \<open>g.updatePrediction()\<close>\<close>
  "trackBackspace env g = do {
     cs \<leftarrow> backspaceSentence (currentSentence g);
     updatePrediction env (g\<lparr>effects := effects g @ [KeyTap ''backspace''], currentSentence := cs\<rparr>) }"

fun strLe :: "string \<Rightarrow> string \<Rightarrow> bool" where
  \<comment> \<open>\<open>s <= t\<close> on Go strings: byte by byte\<close>
  "strLe [] t = True"
| "strLe (c # cs) [] = False"
| "strLe (c # cs) (d # ds) = ((of_char c :: nat) < of_char d \<or> (c = d \<and> strLe cs ds))"

definition typeToken :: "predEnv \<Rightarrow> string \<Rightarrow> Game \<Rightarrow> Game option" where
  \<comment> \<open>the last branch of the selection: a token that is typed\<close>
  "typeToken env selectedChar g =
     (let outputChar =
            (if len selectedChar = 1 \<and> strLe ''A'' selectedChar \<and> strLe selectedChar ''Z''
             then (if uppercase g then selectedChar else ToLower selectedChar)
             else selectedChar);
          g1 = g\<lparr>effects := effects g @ [TypeStr outputChar, AppendRaw outputChar]\<rparr>;
          g2 = (if len (currentSentence g1) = 0 then g1\<lparr>currentSentence := [[]]\<rparr> else g1)
      in do {
        w \<leftarrow> index (currentSentence g2) (len (currentSentence g2) - 1);
        cs \<leftarrow> store (currentSentence g2) (len (currentSentence g2) - 1) (w @ outputChar);
        updatePrediction env (g2\<lparr>currentSentence := cs\<rparr>) })"

section \<open>The rings\<close>

definition backspaceToken :: string where
  \<comment> \<open>U+232B in UTF-8\<close>
  "backspaceToken = [CHR 0xE2, CHR 0x8C, CHR 0xAB]"

definition enterToken :: string where
  \<comment> \<open>U+21B5 in UTF-8\<close>
  "enterToken = [CHR 0xE2, CHR 0x86, CHR 0xB5]"

definition rings :: "string list list list" where
  \<comment> \<open>\<open>g.rings[set][ring]\<close>, as \<open>Update\<close> fills it before the first use; in the main
      set the ten digits and the 26 capital letters are one token each\<close>
  "rings =
     [[map (\<lambda>c. [c]) ''0123456789'' @ [''.'', '','', ''-'', ''_'', backspaceToken, enterToken],
       map (\<lambda>c. [c]) ''ABCDEFGHIJKLMNOPQRSTUVWXYZ''],
      [[''('', '')'', ''['', '']'', ''{'', ''}'', ''<'', ''>'', [CHR 0x27], [CHR 0x22],
        [CHR 0x60], ''~'', ''!'', ''?'', backspaceToken, enterToken],
       [''+'', ''-'', ''*'', ''/'', ''='', ''!='', ''=='', ''&&'', ''||'', ''%'',
        ''&'', ''|'', ''^'', ''<<'', ''>>'', ''@'', ''#'', ''$'', '':'', '';'',
        [CHR 0x5C], ''.'', '','', ''_'', ''->'', ''=>'']]]"

definition ringAt :: "int \<Rightarrow> int \<Rightarrow> string list option" where
  \<comment> \<open>\<open>g.rings[set][ring]\<close>\<close>
  "ringAt s r = do { rs \<leftarrow> index rings s; index rs r }"

section \<open>The radial selector\<close>

definition Sqrt :: "real \<Rightarrow> real" where
  "Sqrt v = sqrt v"

definition Atan2 :: "real \<Rightarrow> real \<Rightarrow> real" where
  \<comment> \<open>\<open>math.Atan2(y, x)\<close>, by the cases of the standard library on finite arguments\<close>
  "Atan2 y x =
     (if y = 0 then (if 0 \<le> x then 0 else pi)
      else if x = 0 then (if 0 < y then pi / 2 else - (pi / 2))
      else (let q = arctan (y / x)
            in if x < 0 then (if q \<le> 0 then q + pi else q - pi) else q))"

definition magnitudeOf :: "real \<Rightarrow> real \<Rightarrow> real" where
  \<comment> \<open>\<open>magnitude := math.Sqrt(x*x + y*y)\<close>\<close>
  "magnitudeOf x y = Sqrt (x * x + y * y)"

definition updateSelection :: "real \<Rightarrow> real \<Rightarrow> Game \<Rightarrow> Game option" where
  \<comment> \<open>the ring and the index from the left stick\<close>
  "updateSelection x y g =
     (let magnitude = magnitudeOf x y
      in if magnitude > 0.1 then
           (let g1 = (if magnitude < 0.9 then g\<lparr>selectedRing := 0\<rparr> else g\<lparr>selectedRing := 1\<rparr>);
                angle0 = Atan2 x (- y);
                angle = (if angle0 < 0 then angle0 + 2 * pi else angle0);
                g2 = g1\<lparr>joystickAngle := angle\<rparr>
            in do {
              currentRing \<leftarrow> ringAt (currentSet g2) (selectedRing g2);
              i \<leftarrow> goMod (truncInt (angle / ((2 * pi) / real_of_int (len currentRing)))) (len currentRing);
              Some (g2\<lparr>selectedIndex := i\<rparr>) })
         else Some g)"

section \<open>The confirm button\<close>

text \<open>
  A time is a number of nanoseconds, the zero time is 0, and \<open>Sub\<close> is the difference
  within the range of a 64-bit duration, as \<open>time.Time.Sub\<close> returns it.
\<close>

definition Sub :: "int \<Rightarrow> int \<Rightarrow> int" where
  "Sub t u = max (- (2 ^ 63)) (min (2 ^ 63 - 1) (t - u))"

definition Millisecond :: int where
  "Millisecond = 1000000"

definition commitToken :: "predEnv \<Rightarrow> string \<Rightarrow> Game \<Rightarrow> Game option" where
  "commitToken env selectedChar g =
     (if selectedChar = backspaceToken then trackBackspace env g
      else if selectedChar = enterToken then enterSentence g
      else typeToken env selectedChar g)"

definition confirmSelection :: "predEnv \<Rightarrow> int \<Rightarrow> real \<Rightarrow> Game \<Rightarrow> Game option" where
  \<comment> \<open>the body under \<open>IsStandardGamepadButtonJustPressed(id, StandardGamepadButtonRightBottom)\<close>\<close>
  "confirmSelection env now magnitude g =
     (if Sub now (lastButtonTime g) > 200 * Millisecond then
        (if magnitude > 0.1 then do {
           currentRing \<leftarrow> ringAt (currentSet g) (selectedRing g);
           if selectedIndex g < len currentRing then do {
             selectedChar \<leftarrow> index currentRing (selectedIndex g);
             g1 \<leftarrow> commitToken env selectedChar g;
             Some (g1\<lparr>lastButtonTime := now\<rparr>) }
           else Some g }
         else Some g)
      else Some g)"

section \<open>Space and the acceptance of a prediction\<close>

definition wordBreak :: "predEnv \<Rightarrow> Game \<Rightarrow> Game option" where
  \<comment> \<open>the body under button X\<close>
  "wordBreak env g =
     (let g1 = g\<lparr>effects := effects g @ [TypeStr '' '', AppendRaw '' '']\<rparr>
      in do {
        lastNonEmpty \<leftarrow>
          (if len (currentSentence g1) > 0 then do {
             w \<leftarrow> index (currentSentence g1) (len (currentSentence g1) - 1);
             Some (w \<noteq> []) }
           else Some False);
        updatePrediction env
          (if lastNonEmpty then g1\<lparr>currentSentence := currentSentence g1 @ [[]]\<rparr>
           else if len (currentSentence g1) = 0 then g1\<lparr>currentSentence := [[]]\<rparr>
           else g1) })"

definition acceptPrediction :: "predEnv \<Rightarrow> Game \<Rightarrow> Game option" where
  \<comment> \<open>the body under standard button 7\<close>
  "acceptPrediction env g =
     (if nextPrediction g \<noteq> [] then do {
        lastNonEmpty \<leftarrow>
          (if len (currentSentence g) > 0 then do {
             w \<leftarrow> index (currentSentence g) (len (currentSentence g) - 1);
             Some (w \<noteq> []) }
           else Some False);
        typed \<leftarrow>
          (if lastNonEmpty then do {
             currentWord \<leftarrow> index (currentSentence g) (len (currentSentence g) - 1);
             if HasPrefix (ToLower (nextPrediction g)) (ToLower currentWord) then do {
               rest \<leftarrow> sliceFrom (nextPrediction g) (len currentWord);
               Some (rest @ '' '', g) }
             else
               Some (nextPrediction g @ '' '',
                     g\<lparr>effects := effects g @ replicate (nat (len currentWord)) (KeyTap ''backspace'')\<rparr>) }
           else Some (nextPrediction g @ '' '', g));
        (case typed of (toType, g1) \<Rightarrow>
          (let g2 = g1\<lparr>effects := effects g1 @ [TypeStr toType, AppendRaw toType]\<rparr>
           in do {
             cs \<leftarrow>
               (if len (currentSentence g2) = 0 then Some [nextPrediction g2, []]
                else do {
                  w \<leftarrow> index (currentSentence g2) (len (currentSentence g2) - 1);
                  if w = [] then do {
                    cs1 \<leftarrow> store (currentSentence g2) (len (currentSentence g2) - 1) (nextPrediction g2);
                    Some (cs1 @ [[]]) }
                  else do {
                    cs1 \<leftarrow> store (currentSentence g2) (len (currentSentence g2) - 1) (nextPrediction g2);
                    Some (cs1 @ [[]]) } });
             updatePrediction env (g2\<lparr>currentSentence := cs\<rparr>) })) }
      else Some g)"

section \<open>One gamepad in one call of Update\<close>

text \<open>
  What the frame gives for a gamepad with the standard layout: the axes of the left
  stick, the clock, the buttons that have just been pressed and the buttons that are
  held, and what each possible call of \<open>updatePrediction\<close> draws.
\<close>

record PadInput =
  leftStickHorizontal :: real
  leftStickVertical :: real
  timeNow :: int
  justRightBottom :: bool
  justRightRight :: bool
  justRightLeft :: bool
  justRightTop :: bool
  justLeftTop :: bool
  justLeftBottom :: bool
  justLeftLeft :: bool
  justLeftRight :: bool
  pressedButton4 :: bool
  pressedButton5 :: bool
  justButton7 :: bool
  envRightBottom :: predEnv
  envRightRight :: predEnv
  envRightLeft :: predEnv
  envButton7 :: predEnv

definition tapIf :: "bool \<Rightarrow> string \<Rightarrow> Game \<Rightarrow> Game" where
  "tapIf b k g = (if b then g\<lparr>effects := effects g @ [KeyTap k]\<rparr> else g)"

definition padUpdate :: "PadInput \<Rightarrow> Game \<Rightarrow> Game option" where
  "padUpdate inp g = do {
     g1 \<leftarrow> updateSelection (leftStickHorizontal inp) (leftStickVertical inp) g;
     g2 \<leftarrow> (if justRightBottom inp
            then confirmSelection (envRightBottom inp) (timeNow inp)
                   (magnitudeOf (leftStickHorizontal inp) (leftStickVertical inp)) g1
            else Some g1);
     g3 \<leftarrow> (if justRightRight inp then trackBackspace (envRightRight inp) g2 else Some g2);
     g4 \<leftarrow> (if justRightLeft inp then wordBreak (envRightLeft inp) g3 else Some g3);
     g5 \<leftarrow> (if justRightTop inp then enterSentence g4 else Some g4);
     (let g6 = tapIf (justLeftRight inp) ''right''
                 (tapIf (justLeftLeft inp) ''left''
                   (tapIf (justLeftBottom inp) ''down''
                     (tapIf (justLeftTop inp) ''up'' g5)));
          g7 = g6\<lparr>currentSet := (if pressedButton4 inp then 1 else 0)\<rparr>;
          g8 = g7\<lparr>uppercase := pressedButton5 inp\<rparr>
      in if justButton7 inp then acceptPrediction (envButton7 inp) g8 else Some g8) }"

fun padLoop :: "PadInput list \<Rightarrow> Game \<Rightarrow> Game option" where
  \<comment> \<open>\<open>for id := range g.gamepadIDs\<close>, the gamepads in the order the range visits them\<close>
  "padLoop [] g = Some g"
| "padLoop (inp # rest) g = do { g1 \<leftarrow> padUpdate inp g; padLoop rest g1 }"

section \<open>Start: the files and the training\<close>

datatype error = ErrHomeDir | ErrRead | ErrUnmarshal

text \<open>
  What reading a file gives: no home directory, no such file, another failure of the
  read, or the bytes. For the training file the bytes are JSON: either they decode to a
  list of sentences, or \<open>json.Unmarshal\<close> fails and leaves in the destination what it had
  decoded so far.
\<close>

datatype 'a fileRead = HomeDirError | NotExist | ReadError | Data 'a

datatype decoded = Malformed "string list list" | Sentences "string list list"

definition loadTrainingData :: "decoded fileRead \<Rightarrow> Game \<Rightarrow> error option \<times> Game" where
  "loadTrainingData file g =
     (case file of
        HomeDirError \<Rightarrow> (Some ErrHomeDir, g)
      | NotExist \<Rightarrow> (None, g\<lparr>trainingData := []\<rparr>)
      | ReadError \<Rightarrow> (Some ErrRead, g)
      | Data (Malformed partial) \<Rightarrow> (Some ErrUnmarshal, g\<lparr>trainingData := partial\<rparr>)
      | Data (Sentences ss) \<Rightarrow> (None, g\<lparr>trainingData := ss\<rparr>))"

definition seedSentences :: "string list list" where
  "seedSentences =
     [[''hello'', ''world''],
      [''how'', ''are'', ''you''],
      [''the'', ''quick'', ''brown'', ''fox''],
      [''I'', ''am'', ''fine''],
      [''thank'', ''you'', ''very'', ''much''],
      [''what'', ''is'', ''your'', ''name''],
      [''nice'', ''to'', ''meet'', ''you''],
      [''have'', ''a'', ''good'', ''day''],
      [''see'', ''you'', ''later''],
      [''good'', ''morning''],
      [''good'', ''afternoon''],
      [''good'', ''evening''],
      [''ok'', ''thanks''],
      [''ok'', ''I'', ''will''],
      [''ok'', ''let'', ''me'', ''check''],
      [''ok'', ''sounds'', ''good''],
      [''yes'', ''I'', ''agree''],
      [''no'', ''thank'', ''you''],
      [''please'', ''help'', ''me''],
      [''can'', ''you'', ''help''],
      [''this'', ''is'', ''great''],
      [''that'', ''is'', ''awesome'']]"

fun incrementLower :: "string list \<Rightarrow> (string \<Rightarrow> nat) \<Rightarrow> (string \<Rightarrow> nat)" where
  \<comment> \<open>\<open>for _, word := range sentence { g.wordFrequency[strings.ToLower(word)]++ }\<close>\<close>
  "incrementLower [] fr = fr"
| "incrementLower (word # rest) fr = incrementLower rest (fr(ToLower word := fr (ToLower word) + 1))"

fun trainLoop :: "string list list \<Rightarrow> Chain \<times> (string \<Rightarrow> nat) \<Rightarrow> Chain \<times> (string \<Rightarrow> nat)" where
  \<comment> \<open>\<open>for _, sentence := range g.trainingData\<close>, on the chain and the frequencies\<close>
  "trainLoop [] st = st"
| "trainLoop (sentence # rest) (ch, fr) = trainLoop rest (Add ch sentence, incrementLower sentence fr)"

definition trailingCutset :: string where
  \<comment> \<open>comma, full stop, semicolon, colon, double quote, apostrophe, exclamation mark, question mark\<close>
  "trailingCutset = [CHR 0x2C, CHR 0x2E, CHR 0x3B, CHR 0x3A, CHR 0x22, CHR 0x27, CHR 0x21, CHR 0x3F]"

definition leadingCutset :: string where
  \<comment> \<open>double quote, apostrophe\<close>
  "leadingCutset = [CHR 0x22, CHR 0x27]"

definition sentenceEnd :: "char \<Rightarrow> bool" where
  \<comment> \<open>full stop, exclamation mark, question mark, line feed\<close>
  "sentenceEnd r = (r = CHR 0x2E \<or> r = CHR 0x21 \<or> r = CHR 0x3F \<or> r = CHR 0x0A)"

fun cleanLoop :: "string list \<Rightarrow> string list \<Rightarrow> string list" where
  \<comment> \<open>\<open>for _, word := range words\<close>, with \<open>cleanWords\<close>\<close>
  "cleanLoop [] cleanWords = cleanWords"
| "cleanLoop (word # rest) cleanWords =
     (let word1 = TrimRight word trailingCutset;
          word2 = TrimLeft word1 leadingCutset
      in if word2 \<noteq> [] then cleanLoop rest (cleanWords @ [ToLower word2])
         else cleanLoop rest cleanWords)"

fun incrementAll :: "string list \<Rightarrow> (string \<Rightarrow> nat) \<Rightarrow> (string \<Rightarrow> nat)" where
  \<comment> \<open>\<open>for _, word := range cleanWords { g.wordFrequency[word]++ }\<close>\<close>
  "incrementAll [] fr = fr"
| "incrementAll (word # rest) fr = incrementAll rest (fr(word := fr word + 1))"

fun sentenceLoop :: "string list \<Rightarrow> Chain option \<times> (string \<Rightarrow> nat) \<Rightarrow> (Chain option \<times> (string \<Rightarrow> nat)) option" where
  \<comment> \<open>\<open>for _, sentence := range sentences\<close>, on the chain and the frequencies. The chain and
      the map are made by the same statements, so a nil chain comes with a nil map:
      \<open>Add\<close> and the increment of a count panic then.\<close>
  "sentenceLoop [] st = Some st"
| "sentenceLoop (sentence # rest) (ch, fr) =
     (let sentence1 = TrimSpace sentence
      in if sentence1 = [] then sentenceLoop rest (ch, fr)
         else (let words = Fields sentence1
               in if len words > 1 then
                    (let cleanWords = cleanLoop words []
                     in case ch of
                          None \<Rightarrow> (if cleanWords = [] then sentenceLoop rest (ch, fr) else None)
                        | Some c \<Rightarrow>
                            sentenceLoop rest
                              (if len cleanWords > 1 then Some (Add c cleanWords) else Some c,
                               incrementAll cleanWords fr))
                  else sentenceLoop rest (ch, fr)))"

definition loadRawTextAndTrain :: "string fileRead \<Rightarrow> Game \<Rightarrow> (error option \<times> Game) option" where
  \<comment> \<open>the outer \<open>None\<close> is a panic\<close>
  "loadRawTextAndTrain file g =
     (case file of
        HomeDirError \<Rightarrow> Some (Some ErrHomeDir, g)
      | NotExist \<Rightarrow> Some (None, g)
      | ReadError \<Rightarrow> Some (Some ErrRead, g)
      | Data text \<Rightarrow>
          if text = [] then Some (None, g)
          else do {
            r \<leftarrow> sentenceLoop (FieldsFunc text sentenceEnd) (markovChain g, wordFrequency g);
            Some (None, g\<lparr>markovChain := fst r, wordFrequency := snd r\<rparr>) })"

record Startup =
  trainingFile :: "decoded fileRead"
  rawTextFile :: "string fileRead"
  envStart :: predEnv

definition initialize :: "Startup \<Rightarrow> Game \<Rightarrow> Game option" where
  \<comment> \<open>the body under \<open>if g.markovChain == nil\<close>; the errors of the two loads are logged\<close>
  "initialize st g =
     (let g1 = g\<lparr>markovChain := Some NewChain, wordFrequency := (\<lambda>w. 0)\<rparr>;
          g2 = snd (loadTrainingData (trainingFile st) g1);
          g3 = (if len (trainingData g2) = 0 then g2\<lparr>trainingData := seedSentences\<rparr> else g2);
          trained = trainLoop (trainingData g3) (NewChain, wordFrequency g3);
          g4 = g3\<lparr>markovChain := Some (fst trained), wordFrequency := snd trained\<rparr>
      in do {
        r \<leftarrow> loadRawTextAndTrain (rawTextFile st) g4;
        updatePrediction (envStart st) (snd r) })"

definition Update :: "Startup \<Rightarrow> PadInput list \<Rightarrow> Game \<Rightarrow> Game option" where
  "Update st pads g = do {
     g1 \<leftarrow> (if markovChain g = None then initialize st g else Some g);
     padLoop pads g1 }"

definition newGame :: Game where
  \<comment> \<open>the zero values of the fields, as \<open>main\<close> leaves them\<close>
  "newGame = \<lparr>currentSet = 0, selectedRing = 0, selectedIndex = 0, joystickAngle = 0,
              lastButtonTime = 0, uppercase = False, markovChain = None, currentSentence = [],
              trainingData = [], nextPrediction = [], wordFrequency = (\<lambda>w. 0), effects = []\<rparr>"

section \<open>Notions of the properties\<close>

definition ready :: "Game \<Rightarrow> bool" where
  \<comment> \<open>what holds of the state once \<open>Update\<close> has started: the set and the ring are 0 or 1,
      the index is not negative, the chain is made\<close>
  "ready g =
     ((currentSet g = 0 \<or> currentSet g = 1) \<and> (selectedRing g = 0 \<or> selectedRing g = 1) \<and>
      0 \<le> selectedIndex g \<and> (\<exists>ch. markovChain g = Some ch))"

fun isKeystroke :: "effect \<Rightarrow> bool" where
  "isKeystroke (KeyTap k) = True"
| "isKeystroke (TypeStr s) = True"
| "isKeystroke (AppendRaw s) = False"
| "isKeystroke (SaveTraining d) = False"

definition keystrokes :: "Game \<Rightarrow> effect list" where
  \<comment> \<open>what has been sent to the keyboard of the system\<close>
  "keystrokes g = filter isKeystroke (effects g)"

definition kept :: "Game \<Rightarrow> Game \<Rightarrow> bool" where
  \<comment> \<open>the second state has the set, the ring, the index and the time of the last confirmed
      press of the first, and a chain if the first has one\<close>
  "kept g g' =
     (currentSet g' = currentSet g \<and> selectedRing g' = selectedRing g \<and>
      selectedIndex g' = selectedIndex g \<and> lastButtonTime g' = lastButtonTime g \<and>
      (markovChain g' = None) = (markovChain g = None))"

definition inProgress :: "Game \<Rightarrow> string" where
  \<comment> \<open>the word being typed: the last word, or nothing when there is no word\<close>
  "inProgress g = (if currentSentence g = [] then [] else last (currentSentence g))"

definition specAngle :: "real \<Rightarrow> real \<Rightarrow> real" where
  \<comment> \<open>the angle as the specification gives it: atan2(x, -y), with \<open>2\<pi>\<close> added when negative\<close>
  "specAngle x y = (if Atan2 x (- y) < 0 then Atan2 x (- y) + 2 * pi else Atan2 x (- y))"

definition specIndex :: "real \<Rightarrow> nat \<Rightarrow> int" where
  \<comment> \<open>the index as the specification gives it: floor(angle / (2\<pi> / N)) mod N\<close>
  "specIndex angle n = \<lfloor>angle / ((2 * pi) / real n)\<rfloor> mod int n"

definition sameSel :: "Game \<Rightarrow> Game \<Rightarrow> bool" where
  \<comment> \<open>the second state is ready and has the set, the ring and the index of the first\<close>
  "sameSel g g' = (ready g' \<and> currentSet g' = currentSet g \<and> selectedRing g' = selectedRing g \<and>
      selectedIndex g' = selectedIndex g)"

definition wellFormed :: "Game \<Rightarrow> bool" where
  \<comment> \<open>\<open>ready\<close> without the chain: what holds of the state before the first call too\<close>
  "wellFormed g =
     ((currentSet g = 0 \<or> currentSet g = 1) \<and> (selectedRing g = 0 \<or> selectedRing g = 1) \<and>
      0 \<le> selectedIndex g)"

definition deadZone :: "PadInput \<Rightarrow> bool" where
  \<comment> \<open>the left stick is within the dead zone\<close>
  "deadZone inp = (magnitudeOf (leftStickHorizontal inp) (leftStickVertical inp) \<le> 0.1)"

fun UpdateSeq :: "(Startup \<times> PadInput list) list \<Rightarrow> Game \<Rightarrow> Game option" where
  \<comment> \<open>successive calls of \<open>Update\<close>, each with what the files and the gamepads give it\<close>
  "UpdateSeq [] g = Some g"
| "UpdateSeq ((st, pads) # rest) g = do { g1 \<leftarrow> Update st pads g; UpdateSeq rest g1 }"

section \<open>Inputs of the examples\<close>

definition noDraw :: predEnv where
  "noDraw = \<lparr>randN = 0, mapOrder = []\<rparr>"

definition idleInput :: PadInput where
  \<comment> \<open>a gamepad at rest: the stick at the centre, no button pressed, at time 0\<close>
  "idleInput =
     \<lparr>leftStickHorizontal = 0, leftStickVertical = 0, timeNow = 0,
      justRightBottom = False, justRightRight = False, justRightLeft = False,
      justRightTop = False, justLeftTop = False, justLeftBottom = False,
      justLeftLeft = False, justLeftRight = False, pressedButton4 = False,
      pressedButton5 = False, justButton7 = False, envRightBottom = noDraw,
      envRightRight = noDraw, envRightLeft = noDraw, envButton7 = noDraw\<rparr>"

definition noFiles :: Startup where
  \<comment> \<open>the first run: neither file exists\<close>
  "noFiles = \<lparr>trainingFile = NotExist, rawTextFile = NotExist, envStart = noDraw\<rparr>"

definition startedGame :: Game where
  \<comment> \<open>a game with an empty chain\<close>
  "startedGame = newGame\<lparr>markovChain := Some NewChain\<rparr>"

definition onlyConfirm :: "PadInput \<Rightarrow> bool" where
  \<comment> \<open>the confirm button has just been pressed and no other button that types or edits\<close>
  "onlyConfirm inp =
     (justRightBottom inp \<and>
      (justRightRight inp = False) \<and> (justRightLeft inp = False) \<and> (justRightTop inp = False) \<and>
      (justLeftTop inp = False) \<and> (justLeftBottom inp = False) \<and> (justLeftLeft inp = False) \<and>
      (justLeftRight inp = False) \<and> (justButton7 inp = False))"

definition onlyBackspace :: "PadInput \<Rightarrow> bool" where
  \<comment> \<open>button B has just been pressed and no other button that types or edits\<close>
  "onlyBackspace inp =
     (justRightRight inp \<and>
      (justRightBottom inp = False) \<and> (justRightLeft inp = False) \<and> (justRightTop inp = False) \<and>
      (justLeftTop inp = False) \<and> (justLeftBottom inp = False) \<and> (justLeftLeft inp = False) \<and>
      (justLeftRight inp = False) \<and> (justButton7 inp = False))"

section \<open>The rehydration in the words of the specification\<close>





definition caseFolded :: "string \<Rightarrow> bool" where
  "caseFolded w = (ToLower w = w)"

definition bothFolded :: "string \<times> string \<Rightarrow> bool" where
  "bothFolded p = (caseFolded (fst p) \<and> caseFolded (snd p))"

section \<open>Indexing at the end of a slice\<close>

lemma index_append_last: "index (ws @ [w]) (len (ws @ [w]) - 1) = Some w"
  by (simp add: index_def len_def)

lemma index_before_last: "index (ws @ [v, w]) (len (ws @ [v, w]) - 2) = Some v"
  by (simp add: index_def len_def nth_append)

lemma store_append_last: "store (ws @ [w]) (len (ws @ [w]) - 1) v = Some (ws @ [v])"
  by (simp add: store_def len_def)

lemma sliceTo_append_last: "sliceTo (ws @ [w]) (len (ws @ [w]) - 1) = Some ws"
  by (simp add: sliceTo_def len_def)

lemma len_simps [simp]: "(len xs = 0) = (xs = [])" "(0 < len xs) = (xs \<noteq> [])"
  by (simp_all add: len_def)

section \<open>updatePrediction returns and writes the prediction only\<close>

lemma nextPrediction_same: "g\<lparr>nextPrediction := nextPrediction g\<rparr> = g"
  by simp

lemma updatePrediction_Some: "\<exists>p. updatePrediction env g = Some (g\<lparr>nextPrediction := p\<rparr>)"
proof (cases "markovChain g")
  case None
  then show ?thesis by (auto simp: updatePrediction_def)
next
  case (Some ch)
  show ?thesis
  proof (cases "currentSentence g" rule: rev_cases)
    case Nil
    then show ?thesis using Some by (auto simp: updatePrediction_def split: option.splits)
  next
    case (snoc ws w)
    note outer = snoc
    show ?thesis
    proof (cases ws rule: rev_cases)
      case Nil
      have "\<exists>p. Some g = Some (g\<lparr>nextPrediction := p\<rparr>)"
        using nextPrediction_same [of g] by metis
      then show ?thesis using Some outer Nil
        by (auto simp: updatePrediction_def index_def len_def Let_def split: option.splits)
    next
      case (snoc vs v)
      have i1: "index (currentSentence g) (len (currentSentence g) - 1) = Some w"
        using outer index_append_last by simp
      have i2: "index (currentSentence g) (len (currentSentence g) - 2) = Some v"
        using outer snoc index_before_last [of vs v w] by simp
      have l: "len (currentSentence g) > 1" using outer snoc by (simp add: len_def)
      show ?thesis using Some i1 i2 l
        by (auto simp: updatePrediction_def Let_def split: option.splits)
    qed
  qed
qed

section \<open>Backspace\<close>

lemma backspaceSentence_Nil: "backspaceSentence [] = Some []"
  by (simp add: backspaceSentence_def)

lemma backspaceSentence_empty_last: "backspaceSentence (ws @ [[]]) = Some (ws @ [[]])"
  using index_append_last [of ws "[]"] by (simp add: backspaceSentence_def)

lemma backspaceSentence_char:
  "backspaceSentence (ws @ [w @ [c]]) = Some (if w = [] then ws else ws @ [w])"
proof -
  have a: "index (ws @ [w @ [c]]) (len (ws @ [w @ [c]]) - 1) = Some (w @ [c])"
    by (rule index_append_last)
  have b: "sliceTo (w @ [c]) (len (w @ [c]) - 1) = Some w"
    by (rule sliceTo_append_last)
  have c: "store (ws @ [w @ [c]]) (len (ws @ [w @ [c]]) - 1) w = Some (ws @ [w])"
    by (rule store_append_last)
  have d: "index (ws @ [w]) (len (ws @ [w]) - 1) = Some w"
    by (rule index_append_last)
  have e: "sliceTo (ws @ [[]]) (len (ws @ [[]]) - 1) = Some ws"
    by (rule sliceTo_append_last)
  show ?thesis
    unfolding backspaceSentence_def using a b c d e by simp
qed

lemma trackBackspace_Some:
  assumes "backspaceSentence (currentSentence g) = Some cs"
  shows "\<exists>p. trackBackspace env g =
           Some (g\<lparr>effects := effects g @ [KeyTap ''backspace''], currentSentence := cs, nextPrediction := p\<rparr>)"
  using assms updatePrediction_Some [of env "g\<lparr>effects := effects g @ [KeyTap ''backspace''], currentSentence := cs\<rparr>"]
  by (simp add: trackBackspace_def)

text \<open>
  Claim C1, as the code has it. A backspace removes the last byte of the last word when
  that word is not empty, and a word that becomes empty is dropped however many words
  there are: emptying the only word leaves no word. When the last word is empty already
  the words stay as they are, so a backspace on \<open>["a", ""]\<close> gives \<open>["a", ""]\<close>. Nothing
  panics, one backspace key is sent, and the delete token of a ring does the same as
  button B.
\<close>

theorem backspace_drops_emptied_word:
  "(currentSentence g = ws @ [w @ [c]] \<longrightarrow>
      (\<exists>g'. trackBackspace env g = Some g' \<and>
            currentSentence g' = (if w = [] then ws else ws @ [w]) \<and>
            effects g' = effects g @ [KeyTap ''backspace''])) \<and>
   (currentSentence g = ws @ [[]] \<longrightarrow>
      (\<exists>g'. trackBackspace env g = Some g' \<and>
            currentSentence g' = ws @ [[]] \<and>
            effects g' = effects g @ [KeyTap ''backspace''])) \<and>
   commitToken env backspaceToken g = trackBackspace env g"
proof (intro conjI impI)
  assume h: "currentSentence g = ws @ [w @ [c]]"
  then have "backspaceSentence (currentSentence g) = Some (if w = [] then ws else ws @ [w])"
    by (simp only: backspaceSentence_char)
  from trackBackspace_Some [OF this, of env]
  show "\<exists>g'. trackBackspace env g = Some g' \<and>
            currentSentence g' = (if w = [] then ws else ws @ [w]) \<and>
            effects g' = effects g @ [KeyTap ''backspace'']"
    by auto
next
  assume h: "currentSentence g = ws @ [[]]"
  then have "backspaceSentence (currentSentence g) = Some (ws @ [[]])"
    by (simp only: backspaceSentence_empty_last)
  from trackBackspace_Some [OF this, of env]
  show "\<exists>g'. trackBackspace env g = Some g' \<and>
            currentSentence g' = ws @ [[]] \<and>
            effects g' = effects g @ [KeyTap ''backspace'']"
    by auto
next
  show "commitToken env backspaceToken g = trackBackspace env g"
    by (simp add: commitToken_def)
qed

theorem backspace_drops_emptied_word_witness:
  "map_option currentSentence
     (trackBackspace \<lparr>randN = 0, mapOrder = []\<rparr> (newGame\<lparr>currentSentence := [''hi'', ''yo'']\<rparr>))
     = Some [''hi'', ''y''] \<and>
   map_option currentSentence
     (trackBackspace \<lparr>randN = 0, mapOrder = []\<rparr> (newGame\<lparr>currentSentence := [''hi'', []]\<rparr>))
     = Some [''hi'', []]"
  using backspace_drops_emptied_word
          [of "newGame\<lparr>currentSentence := [''hi'', ''yo'']\<rparr>" "[''hi'']" "''y''" "CHR ''o''"
              "\<lparr>randN = 0, mapOrder = []\<rparr>"]
        backspace_drops_emptied_word
          [of "newGame\<lparr>currentSentence := [''hi'', []]\<rparr>" "[''hi'']" "[]" "CHR ''o''"
              "\<lparr>randN = 0, mapOrder = []\<rparr>"]
  by auto

text \<open>
  Claim C1 as stated fails. It says that a backspace which empties the only word keeps
  the empty word, and that a backspace on \<open>["a", ""]\<close> gives \<open>["a"]\<close>. The code leaves no
  word at all in the first case and \<open>["a", ""]\<close> in the second.
\<close>

theorem backspace_keeps_sole_word_counterexample:
  "map_option currentSentence
     (trackBackspace \<lparr>randN = 0, mapOrder = []\<rparr> (newGame\<lparr>currentSentence := [''a'']\<rparr>))
     = Some [] \<and>
   Some [] \<noteq> Some [[] :: string] \<and>
   map_option currentSentence
     (trackBackspace \<lparr>randN = 0, mapOrder = []\<rparr> (newGame\<lparr>currentSentence := [''a'', []]\<rparr>))
     = Some [''a'', []] \<and>
   Some [''a'', []] \<noteq> Some [''a'']"
  by (simp add: trackBackspace_def backspaceSentence_def index_def store_def sliceTo_def len_def
      updatePrediction_def newGame_def)

section \<open>The handlers return and keep the selection\<close>

lemma kept_refl [simp]: "kept g g"
  by (simp add: kept_def)

lemma kept_trans: "kept g g1 \<Longrightarrow> kept g1 g2 \<Longrightarrow> kept g g2"
  by (simp add: kept_def)

lemma updatePrediction_kept:
  "\<exists>g'. updatePrediction env g = Some g' \<and> kept g g' \<and>
        currentSentence g' = currentSentence g \<and> effects g' = effects g"
  using updatePrediction_Some [of env g] by (auto simp: kept_def)

lemma backspaceSentence_total: "\<exists>cs. backspaceSentence ws = Some cs"
proof (cases ws rule: rev_cases)
  case Nil
  then show ?thesis by (simp add: backspaceSentence_Nil)
next
  case (snoc vs w)
  show ?thesis
  proof (cases w rule: rev_cases)
    case Nil
    then show ?thesis using snoc by (simp add: backspaceSentence_empty_last)
  next
    case (snoc u c)
    then show ?thesis using \<open>ws = vs @ [w]\<close> by (simp add: backspaceSentence_char)
  qed
qed

lemma trackBackspace_kept:
  "\<exists>g'. trackBackspace env g = Some g' \<and> kept g g' \<and>
        effects g' = effects g @ [KeyTap ''backspace'']"
proof -
  obtain cs where "backspaceSentence (currentSentence g) = Some cs"
    using backspaceSentence_total by blast
  from trackBackspace_Some [OF this, of env] show ?thesis
    by (auto simp: kept_def)
qed

lemma typeToken_eq:
  "typeToken env tok g =
     updatePrediction env
       (g\<lparr>effects := effects g @
                [TypeStr (if len tok = 1 \<and> strLe ''A'' tok \<and> strLe tok ''Z''
                          then (if uppercase g then tok else ToLower tok) else tok),
                 AppendRaw (if len tok = 1 \<and> strLe ''A'' tok \<and> strLe tok ''Z''
                          then (if uppercase g then tok else ToLower tok) else tok)],
          currentSentence :=
            (if currentSentence g = []
             then [(if len tok = 1 \<and> strLe ''A'' tok \<and> strLe tok ''Z''
                    then (if uppercase g then tok else ToLower tok) else tok)]
             else butlast (currentSentence g) @
                  [last (currentSentence g) @
                   (if len tok = 1 \<and> strLe ''A'' tok \<and> strLe tok ''Z''
                    then (if uppercase g then tok else ToLower tok) else tok)])\<rparr>)"
proof (cases "currentSentence g" rule: rev_cases)
  case Nil
  then show ?thesis
    by (simp add: typeToken_def Let_def index_def store_def len_def)
next
  case (snoc ws w)
  then show ?thesis
    using index_append_last [of ws w] store_append_last [of ws w]
    by (simp add: typeToken_def Let_def)
qed

lemma typeToken_kept:
  "\<exists>g' out. typeToken env tok g = Some g' \<and> kept g g' \<and>
        effects g' = effects g @ [TypeStr out, AppendRaw out]"
proof -
  let ?out = "(if len tok = 1 \<and> strLe ''A'' tok \<and> strLe tok ''Z''
                          then (if uppercase g then tok else ToLower tok) else tok)"
  let ?g1 = "g\<lparr>effects := effects g @ [TypeStr ?out, AppendRaw ?out],
          currentSentence :=
            (if currentSentence g = [] then [?out]
             else butlast (currentSentence g) @ [last (currentSentence g) @ ?out])\<rparr>"
  obtain g' where u: "updatePrediction env ?g1 = Some g'" "kept ?g1 g'" "effects g' = effects ?g1"
    using updatePrediction_kept by blast
  have "typeToken env tok g = Some g'"
    using u(1) by (simp only: typeToken_eq)
  moreover have "kept g g'" using u(2) by (simp add: kept_def)
  moreover have "effects g' = effects g @ [TypeStr ?out, AppendRaw ?out]" using u(3) by simp
  ultimately show ?thesis by blast
qed

lemma enterSentence_kept:
  assumes "markovChain g = Some ch"
  shows "\<exists>g' rest. enterSentence g = Some g' \<and> kept g g' \<and> currentSentence g' = [] \<and>
        effects g' = effects g @ [KeyTap ''enter'', AppendRaw [CHR 0x0A]] @ rest \<and>
        filter isKeystroke rest = []"
proof (cases "len (currentSentence g) > 1")
  case True
  then show ?thesis using assms
    by (simp add: enterSentence_def Let_def kept_def)
next
  case False
  then show ?thesis using assms
    by (simp add: enterSentence_def Let_def kept_def)
qed

lemma wordBreak_kept:
  "\<exists>g'. wordBreak env g = Some g' \<and> kept g g' \<and>
        effects g' = effects g @ [TypeStr '' '', AppendRaw '' '']"
proof -
  define g1 where "g1 = g\<lparr>effects := effects g @ [TypeStr '' '', AppendRaw '' '']\<rparr>"
  have "\<exists>b. (if len (currentSentence g1) > 0 then do {
             w \<leftarrow> index (currentSentence g1) (len (currentSentence g1) - 1);
             Some (w \<noteq> []) }
           else Some False) = Some b"
  proof (cases "currentSentence g1" rule: rev_cases)
    case Nil
    then show ?thesis by auto
  next
    case (snoc ws w)
    then show ?thesis using index_append_last [of ws w] by auto
  qed
  then obtain b where b: "(if len (currentSentence g1) > 0 then do {
             w \<leftarrow> index (currentSentence g1) (len (currentSentence g1) - 1);
             Some (w \<noteq> []) }
           else Some False) = Some b" by blast
  define g2 where "g2 = (if b then g1\<lparr>currentSentence := currentSentence g1 @ [[]]\<rparr>
           else if len (currentSentence g1) = 0 then g1\<lparr>currentSentence := [[]]\<rparr>
           else g1)"
  have k: "kept g g2" "effects g2 = effects g @ [TypeStr '' '', AppendRaw '' '']"
    by (simp_all add: g2_def g1_def kept_def)
  obtain g' where u: "updatePrediction env g2 = Some g'" "kept g2 g'" "effects g' = effects g2"
    using updatePrediction_kept by blast
  have "wordBreak env g = Some g'"
    unfolding wordBreak_def Let_def g1_def [symmetric]
    using b u(1) by (simp add: g2_def)
  then show ?thesis using k u kept_trans by auto
qed

section \<open>Acceptance of a prediction\<close>

lemma HasPrefix_length: "HasPrefix s p \<Longrightarrow> length p \<le> length s"
  by (induction s p rule: HasPrefix.induct) auto

lemma length_ToLower [simp]: "length (ToLower s) = length s"
  by (simp add: ToLower_def)

lemma acceptPrediction_none:
  assumes "nextPrediction g \<noteq> []" "currentSentence g = []"
  shows "acceptPrediction env g =
           updatePrediction env
             (g\<lparr>effects := effects g @ [TypeStr (nextPrediction g @ '' ''), AppendRaw (nextPrediction g @ '' '')],
                currentSentence := [nextPrediction g, []]\<rparr>)"
  using assms by (simp add: acceptPrediction_def Let_def)

lemma acceptPrediction_fresh:
  assumes "nextPrediction g \<noteq> []" "currentSentence g = ws @ [[]]"
  shows "acceptPrediction env g =
           updatePrediction env
             (g\<lparr>effects := effects g @ [TypeStr (nextPrediction g @ '' ''), AppendRaw (nextPrediction g @ '' '')],
                currentSentence := ws @ [nextPrediction g, []]\<rparr>)"
  using assms index_append_last [of ws "[]"] store_append_last [of ws "[]" "nextPrediction g"]
  by (simp add: acceptPrediction_def Let_def)

lemma acceptPrediction_prefix:
  assumes "nextPrediction g \<noteq> []" "currentSentence g = ws @ [w]" "w \<noteq> []"
    and "HasPrefix (ToLower (nextPrediction g)) (ToLower w)"
  shows "acceptPrediction env g =
           updatePrediction env
             (g\<lparr>effects := effects g @ [TypeStr (drop (length w) (nextPrediction g) @ '' ''),
                                       AppendRaw (drop (length w) (nextPrediction g) @ '' '')],
                currentSentence := ws @ [nextPrediction g, []]\<rparr>)"
proof -
  have "length w \<le> length (nextPrediction g)"
    using HasPrefix_length [OF assms(4)] by simp
  then have sl: "sliceFrom (nextPrediction g) (len w) = Some (drop (length w) (nextPrediction g))"
    by (simp add: sliceFrom_def len_def)
  show ?thesis
    using assms sl index_append_last [of ws w] store_append_last [of ws w "nextPrediction g"]
    by (simp add: acceptPrediction_def Let_def)
qed

lemma acceptPrediction_replace:
  assumes "nextPrediction g \<noteq> []" "currentSentence g = ws @ [w]" "w \<noteq> []"
    and "\<not> HasPrefix (ToLower (nextPrediction g)) (ToLower w)"
  shows "acceptPrediction env g =
           updatePrediction env
             (g\<lparr>effects := effects g @ replicate (length w) (KeyTap ''backspace'') @
                            [TypeStr (nextPrediction g @ '' ''), AppendRaw (nextPrediction g @ '' '')],
                currentSentence := ws @ [nextPrediction g, []]\<rparr>)"
  using assms index_append_last [of ws w] store_append_last [of ws w "nextPrediction g"]
  by (simp add: acceptPrediction_def Let_def len_def)

text \<open>
  Claim C7. Accepting a prediction that is not empty: when the word in progress is a
  prefix of the prediction without regard to case, exactly the rest of the prediction and
  one space are typed (and appended to the raw text); otherwise one backspace per byte of
  the word in progress is sent first and the whole prediction and one space are typed.
  In every case the last word is replaced by the prediction (or the prediction is the
  first word) and one new empty word follows it.
\<close>

theorem accept_prediction_emits_remainder:
  assumes "nextPrediction g \<noteq> []"
  shows "\<exists>g'. acceptPrediction env g = Some g' \<and>
          (HasPrefix (ToLower (nextPrediction g)) (ToLower (inProgress g)) \<longrightarrow>
             effects g' = effects g @
               [TypeStr (drop (length (inProgress g)) (nextPrediction g) @ '' ''),
                AppendRaw (drop (length (inProgress g)) (nextPrediction g) @ '' '')]) \<and>
          (\<not> HasPrefix (ToLower (nextPrediction g)) (ToLower (inProgress g)) \<longrightarrow>
             effects g' = effects g @
               replicate (length (inProgress g)) (KeyTap ''backspace'') @
               [TypeStr (nextPrediction g @ '' ''), AppendRaw (nextPrediction g @ '' '')]) \<and>
          currentSentence g' = butlast (currentSentence g) @ [nextPrediction g, []]"
proof (cases "currentSentence g" rule: rev_cases)
  case Nil
  then show ?thesis
    using updatePrediction_Some [of env "g\<lparr>effects := effects g @ [TypeStr (nextPrediction g @ '' ''), AppendRaw (nextPrediction g @ '' '')],
                currentSentence := [nextPrediction g, []]\<rparr>"]
      acceptPrediction_none [OF assms Nil, of env]
    by (auto simp: inProgress_def)
next
  case (snoc ws w)
  show ?thesis
  proof (cases "w = []")
    case True
    then show ?thesis
      using snoc acceptPrediction_fresh [OF assms, of ws env]
        updatePrediction_Some [of env "g\<lparr>effects := effects g @ [TypeStr (nextPrediction g @ '' ''), AppendRaw (nextPrediction g @ '' '')],
                currentSentence := ws @ [nextPrediction g, []]\<rparr>"]
      by (auto simp: inProgress_def)
  next
    case False
    show ?thesis
    proof (cases "HasPrefix (ToLower (nextPrediction g)) (ToLower w)")
      case True
      then show ?thesis
        using snoc False acceptPrediction_prefix [OF assms snoc False True, of env]
          updatePrediction_Some [of env "g\<lparr>effects := effects g @ [TypeStr (drop (length w) (nextPrediction g) @ '' ''),
                                       AppendRaw (drop (length w) (nextPrediction g) @ '' '')],
                currentSentence := ws @ [nextPrediction g, []]\<rparr>"]
        by (auto simp: inProgress_def)
    next
      case np: False
      then show ?thesis
        using snoc False acceptPrediction_replace [OF assms snoc False np, of env]
          updatePrediction_Some [of env "g\<lparr>effects := effects g @ replicate (length w) (KeyTap ''backspace'') @
                            [TypeStr (nextPrediction g @ '' ''), AppendRaw (nextPrediction g @ '' '')],
                currentSentence := ws @ [nextPrediction g, []]\<rparr>"]
        by (auto simp: inProgress_def)
    qed
  qed
qed

lemma ToLower_morning: "ToLower ''morning'' = ''morning''" "ToLower ''mo'' = ''mo''"
  "ToLower ''the'' = ''the''" "ToLower ''Xy'' = ''xy''"
  by code_simp+

theorem accept_prediction_emits_remainder_witness:
  "(\<exists>g'. acceptPrediction \<lparr>randN = 0, mapOrder = []\<rparr>
            (newGame\<lparr>nextPrediction := ''morning'', currentSentence := [''mo'']\<rparr>) = Some g' \<and>
         effects g' = [TypeStr ''rning '', AppendRaw ''rning ''] \<and>
         currentSentence g' = [''morning'', []]) \<and>
   (\<exists>g'. acceptPrediction \<lparr>randN = 0, mapOrder = []\<rparr>
            (newGame\<lparr>nextPrediction := ''the'', currentSentence := [''ok'', ''Xy'']\<rparr>) = Some g' \<and>
         effects g' = [KeyTap ''backspace'', KeyTap ''backspace'', TypeStr ''the '', AppendRaw ''the ''] \<and>
         currentSentence g' = [''ok'', ''the'', []])"
  using accept_prediction_emits_remainder
          [of "newGame\<lparr>nextPrediction := ''morning'', currentSentence := [''mo'']\<rparr>" "\<lparr>randN = 0, mapOrder = []\<rparr>"]
        accept_prediction_emits_remainder
          [of "newGame\<lparr>nextPrediction := ''the'', currentSentence := [''ok'', ''Xy'']\<rparr>" "\<lparr>randN = 0, mapOrder = []\<rparr>"]
  by (simp add: inProgress_def ToLower_morning newGame_def numeral_2_eq_2)

section \<open>The selection from the stick\<close>

lemma ringAt_cases:
  "ringAt 0 0 = Some (map (\<lambda>c. [c]) ''0123456789'' @ [''.'', '','', ''-'', ''_'', backspaceToken, enterToken])"
  "ringAt 0 1 = Some (map (\<lambda>c. [c]) ''ABCDEFGHIJKLMNOPQRSTUVWXYZ'')"
  "\<exists>r. ringAt 1 0 = Some r \<and> length r = 16"
  "\<exists>r. ringAt 1 1 = Some r \<and> length r = 26"
  by (simp_all add: ringAt_def rings_def index_def len_def)

lemma ringAt_Some:
  assumes "s = 0 \<or> s = 1" "r = 0 \<or> r = 1"
  shows "\<exists>ring. ringAt s r = Some ring \<and> length ring = (if r = 0 then 16 else 26)"
  using assms ringAt_cases by auto

lemma Atan2_bounds: "- pi < Atan2 y x \<and> Atan2 y x \<le> pi"
proof -
  have a: "- (pi / 2) < arctan (y / x)" "arctan (y / x) < pi / 2"
    using arctan_lbound arctan_ubound by auto
  have p: "0 < pi" by simp
  show ?thesis
    unfolding Atan2_def Let_def using a p by auto
qed

lemma goMod_nonneg: "0 \<le> a \<Longrightarrow> 0 < b \<Longrightarrow> goMod a b = Some (a mod b)"
  by (cases "a = 0") (simp_all add: goMod_def signed_modulo_int_def)

lemma truncInt_nonneg: "0 \<le> v \<Longrightarrow> truncInt v = \<lfloor>v\<rfloor>"
  by (simp add: truncInt_def)

lemma specAngle_bounds: "0 \<le> specAngle x y \<and> specAngle x y < 2 * pi"
  using Atan2_bounds [of x "- y"] by (auto simp: specAngle_def)

lemma updateSelection_dead:
  "magnitudeOf x y \<le> 0.1 \<Longrightarrow> updateSelection x y g = Some g"
  by (simp add: updateSelection_def Let_def)

lemma updateSelection_live:
  assumes "magnitudeOf x y > 0.1" "currentSet g = 0 \<or> currentSet g = 1"
  shows "\<exists>ring. ringAt (currentSet g) (if magnitudeOf x y < 0.9 then 0 else 1) = Some ring \<and>
           ring \<noteq> [] \<and>
           updateSelection x y g =
             Some (g\<lparr>selectedRing := (if magnitudeOf x y < 0.9 then 0 else 1),
                     joystickAngle := specAngle x y,
                     selectedIndex := specIndex (specAngle x y) (length ring)\<rparr>)"
proof -
  define r0 :: int where "r0 = (if magnitudeOf x y < 0.9 then 0 else 1)"
  have r01: "r0 = 0 \<or> r0 = 1" by (simp add: r0_def)
  obtain ring where r: "ringAt (currentSet g) r0 = Some ring"
     "length ring = (if r0 = 0 then 16 else 26)"
    using ringAt_Some [OF assms(2) r01] by blast
  have ne: "ring \<noteq> []" "0 < len ring" using r(2) by (auto simp: len_def split: if_splits)
  have q: "0 \<le> specAngle x y / ((2 * pi) / real_of_int (len ring))"
    using specAngle_bounds [of x y] ne by (simp add: len_def)
  have m: "goMod (truncInt (specAngle x y / ((2 * pi) / real_of_int (len ring)))) (len ring)
             = Some (\<lfloor>specAngle x y / ((2 * pi) / real_of_int (len ring))\<rfloor> mod len ring)"
    using goMod_nonneg [of "truncInt (specAngle x y / ((2 * pi) / real_of_int (len ring)))" "len ring"]
      truncInt_nonneg [OF q] ne(2) q by simp
  have "updateSelection x y g =
             Some (g\<lparr>selectedRing := r0,
                     joystickAngle := specAngle x y,
                     selectedIndex := \<lfloor>specAngle x y / ((2 * pi) / real (length ring))\<rfloor> mod int (length ring)\<rparr>)"
  proof (cases "magnitudeOf x y < 0.9")
    case True
    then have "r0 = 0" by (simp add: r0_def)
    then show ?thesis using assms(1) r(1) m True
      by (simp add: updateSelection_def Let_def specAngle_def len_def)
  next
    case False
    then have "r0 = 1" by (simp add: r0_def)
    then show ?thesis using assms(1) r(1) m False
      by (simp add: updateSelection_def Let_def specAngle_def len_def)
  qed
  then show ?thesis using r(1) ne(1) unfolding r0_def specIndex_def by blast
qed

section \<open>The confirm button and the handlers in one call\<close>

lemma keystrokes_append:
  "effects g' = effects g @ es \<Longrightarrow> keystrokes g' = keystrokes g @ filter isKeystroke es"
  by (simp add: keystrokes_def)

lemma commitToken_kept:
  assumes "markovChain g = Some ch"
  shows "\<exists>g' es. commitToken env tok g = Some g' \<and> kept g g' \<and>
           effects g' = effects g @ es \<and> length (filter isKeystroke es) = 1"
proof -
  consider (b) "tok = backspaceToken" | (e) "tok \<noteq> backspaceToken" "tok = enterToken"
    | (t) "tok \<noteq> backspaceToken" "tok \<noteq> enterToken" by blast
  then show ?thesis
  proof cases
    case b
    obtain g' where "trackBackspace env g = Some g'" "kept g g'"
      "effects g' = effects g @ [KeyTap ''backspace'']"
      using trackBackspace_kept by blast
    then show ?thesis using b by (auto simp: commitToken_def)
  next
    case e
    obtain g' rest where "enterSentence g = Some g'" "kept g g'"
      "effects g' = effects g @ [KeyTap ''enter'', AppendRaw [CHR 0x0A]] @ rest"
      "filter isKeystroke rest = []"
      using enterSentence_kept [OF assms] by blast
    then have "commitToken env tok g = Some g' \<and> kept g g' \<and>
           effects g' = effects g @ ([KeyTap ''enter'', AppendRaw [CHR 0x0A]] @ rest) \<and>
           length (filter isKeystroke ([KeyTap ''enter'', AppendRaw [CHR 0x0A]] @ rest)) = 1"
      using e by (simp add: commitToken_def)
    then show ?thesis by blast
  next
    case t
    obtain g' out where "typeToken env tok g = Some g'" "kept g g'"
      "effects g' = effects g @ [TypeStr out, AppendRaw out]"
      using typeToken_kept by blast
    then have "commitToken env tok g = Some g' \<and> kept g g' \<and>
           effects g' = effects g @ [TypeStr out, AppendRaw out] \<and>
           length (filter isKeystroke [TypeStr out, AppendRaw out]) = 1"
      using t by (simp add: commitToken_def)
    then show ?thesis by blast
  qed
qed

lemma confirmSelection_debounced:
  "Sub now (lastButtonTime g) \<le> 200 * Millisecond \<Longrightarrow> confirmSelection env now m g = Some g"
  by (simp add: confirmSelection_def)

lemma confirmSelection_centred:
  "m \<le> 0.1 \<Longrightarrow> confirmSelection env now m g = Some g"
  by (simp add: confirmSelection_def)

lemma confirmSelection_accepted:
  assumes "ready g" "Sub now (lastButtonTime g) > 200 * Millisecond" "m > 0.1"
    and "ringAt (currentSet g) (selectedRing g) = Some ring" "selectedIndex g < len ring"
  shows "\<exists>g1 es. commitToken env (ring ! nat (selectedIndex g)) g = Some g1 \<and> kept g g1 \<and>
           effects g1 = effects g @ es \<and> length (filter isKeystroke es) = 1 \<and>
           confirmSelection env now m g = Some (g1\<lparr>lastButtonTime := now\<rparr>)"
proof -
  obtain ch where ch: "markovChain g = Some ch" using assms(1) by (auto simp: ready_def)
  have i: "index ring (selectedIndex g) = Some (ring ! nat (selectedIndex g))"
    using assms(1,5) by (simp add: index_def ready_def)
  obtain g1 es where c: "commitToken env (ring ! nat (selectedIndex g)) g = Some g1" "kept g g1"
           "effects g1 = effects g @ es" "length (filter isKeystroke es) = 1"
    using commitToken_kept [OF ch] by blast
  have "confirmSelection env now m g = Some (g1\<lparr>lastButtonTime := now\<rparr>)"
    using assms(2-5) i c(1) by (simp add: confirmSelection_def)
  then show ?thesis using c by blast
qed

lemma confirmSelection_ready:
  assumes "ready g"
  shows "\<exists>g'. confirmSelection env now m g = Some g' \<and> ready g' \<and>
           currentSet g' = currentSet g \<and> selectedRing g' = selectedRing g \<and>
           selectedIndex g' = selectedIndex g"
proof -
  obtain ring where r: "ringAt (currentSet g) (selectedRing g) = Some ring"
    using assms ringAt_Some [of "currentSet g" "selectedRing g"] by (auto simp: ready_def)
  show ?thesis
  proof (cases "Sub now (lastButtonTime g) > 200 * Millisecond \<and> m > 0.1 \<and> selectedIndex g < len ring")
    case True
    then obtain g1 where "kept g g1" "confirmSelection env now m g = Some (g1\<lparr>lastButtonTime := now\<rparr>)"
      using confirmSelection_accepted [OF assms _ _ r, of now m env] by blast
    then show ?thesis using assms by (auto simp: kept_def ready_def)
  next
    case False
    then have "confirmSelection env now m g = Some g"
      using r by (auto simp: confirmSelection_def)
    then show ?thesis using assms by simp
  qed
qed

lemma kept_ready: "kept g g' \<Longrightarrow> ready g \<Longrightarrow> ready g'"
  by (auto simp: kept_def ready_def)

lemma tapIf_kept [simp]: "kept g (tapIf b k g)"
  by (simp add: tapIf_def kept_def)

lemma tapIf_currentSentence [simp]: "currentSentence (tapIf b k g) = currentSentence g"
  by (simp add: tapIf_def)

lemma acceptPrediction_kept:
  "\<exists>g'. acceptPrediction env g = Some g' \<and> kept g g'"
proof (cases "nextPrediction g = []")
  case True
  then show ?thesis by (simp add: acceptPrediction_def)
next
  case ne: False
  show ?thesis
  proof (cases "currentSentence g" rule: rev_cases)
    case Nil
    then show ?thesis
      using acceptPrediction_none [OF ne Nil, of env]
        updatePrediction_kept [of env "g\<lparr>effects := effects g @ [TypeStr (nextPrediction g @ '' ''), AppendRaw (nextPrediction g @ '' '')],
                currentSentence := [nextPrediction g, []]\<rparr>"]
      by (auto simp: kept_def)
  next
    case (snoc ws w)
    show ?thesis
    proof (cases "w = []")
      case True
      then show ?thesis
        using snoc acceptPrediction_fresh [OF ne, of ws env]
          updatePrediction_kept [of env "g\<lparr>effects := effects g @ [TypeStr (nextPrediction g @ '' ''), AppendRaw (nextPrediction g @ '' '')],
                currentSentence := ws @ [nextPrediction g, []]\<rparr>"]
        by (auto simp: kept_def)
    next
      case False
      show ?thesis
      proof (cases "HasPrefix (ToLower (nextPrediction g)) (ToLower w)")
        case True
        then show ?thesis
          using acceptPrediction_prefix [OF ne snoc False True, of env]
            updatePrediction_kept [of env "g\<lparr>effects := effects g @ [TypeStr (drop (length w) (nextPrediction g) @ '' ''),
                                       AppendRaw (drop (length w) (nextPrediction g) @ '' '')],
                currentSentence := ws @ [nextPrediction g, []]\<rparr>"]
          by (auto simp: kept_def)
      next
        case np: False
        then show ?thesis
          using acceptPrediction_replace [OF ne snoc False np, of env]
            updatePrediction_kept [of env "g\<lparr>effects := effects g @ replicate (length w) (KeyTap ''backspace'') @
                            [TypeStr (nextPrediction g @ '' ''), AppendRaw (nextPrediction g @ '' '')],
                currentSentence := ws @ [nextPrediction g, []]\<rparr>"]
          by (auto simp: kept_def)
      qed
    qed
  qed
qed

lemma sameSel_kept: "ready g \<Longrightarrow> kept g g' \<Longrightarrow> sameSel g g'"
  by (auto simp: sameSel_def kept_def ready_def)

lemma sameSel_trans: "sameSel g g1 \<Longrightarrow> sameSel g1 g2 \<Longrightarrow> sameSel g g2"
  by (simp add: sameSel_def)

lemma sameSel_refl: "ready g \<Longrightarrow> sameSel g g"
  by (simp add: sameSel_def)

lemma updateSelection_ready:
  assumes "ready g"
  shows "\<exists>g1. updateSelection x y g = Some g1 \<and> ready g1 \<and> currentSet g1 = currentSet g"
proof (cases "magnitudeOf x y > 0.1")
  case True
  have cs: "currentSet g = 0 \<or> currentSet g = 1" using assms by (simp add: ready_def)
  from updateSelection_live [OF True cs] obtain ring where
    ra: "ringAt (currentSet g) (if magnitudeOf x y < 0.9 then 0 else 1) = Some ring"
    and ne: "ring \<noteq> []"
    and u: "updateSelection x y g =
             Some (g\<lparr>selectedRing := (if magnitudeOf x y < 0.9 then 0 else 1),
                     joystickAngle := specAngle x y,
                     selectedIndex := specIndex (specAngle x y) (length ring)\<rparr>)"
    by blast
  have "0 \<le> specIndex (specAngle x y) (length ring)"
    using ne by (simp add: specIndex_def)
  then show ?thesis using u assms by (auto simp: ready_def)
next
  case False
  then show ?thesis using assms updateSelection_dead [of x y g] by simp
qed

lemma padUpdate_Some:
  assumes "ready g"
  shows "\<exists>g1 g'. updateSelection (leftStickHorizontal inp) (leftStickVertical inp) g = Some g1 \<and>
           padUpdate inp g = Some g' \<and> ready g' \<and>
           selectedRing g' = selectedRing g1 \<and> selectedIndex g' = selectedIndex g1"
proof -
  obtain g1 where g1: "updateSelection (leftStickHorizontal inp) (leftStickVertical inp) g = Some g1"
    "ready g1"
    using updateSelection_ready [OF assms] by blast
  obtain g2 where g2: "(if justRightBottom inp
            then confirmSelection (envRightBottom inp) (timeNow inp)
                   (magnitudeOf (leftStickHorizontal inp) (leftStickVertical inp)) g1
            else Some g1) = Some g2" "sameSel g1 g2"
    using confirmSelection_ready [OF g1(2), of "envRightBottom inp" "timeNow inp"
        "magnitudeOf (leftStickHorizontal inp) (leftStickVertical inp)"] g1(2)
    by (cases "justRightBottom inp") (auto simp: sameSel_def)
  have r2: "ready g2" using g2(2) by (simp add: sameSel_def)
  obtain g3 where g3: "(if justRightRight inp then trackBackspace (envRightRight inp) g2 else Some g2) = Some g3"
    "sameSel g2 g3"
    using trackBackspace_kept [of "envRightRight inp" g2] r2
    by (cases "justRightRight inp") (auto intro: sameSel_kept sameSel_refl)
  have r3: "ready g3" using g3(2) by (simp add: sameSel_def)
  obtain g4 where g4: "(if justRightLeft inp then wordBreak (envRightLeft inp) g3 else Some g3) = Some g4"
    "sameSel g3 g4"
    using wordBreak_kept [of "envRightLeft inp" g3] r3
    by (cases "justRightLeft inp") (auto intro: sameSel_kept sameSel_refl)
  have r4: "ready g4" using g4(2) by (simp add: sameSel_def)
  then obtain ch where ch: "markovChain g4 = Some ch" by (auto simp: ready_def)
  obtain g5 where g5: "(if justRightTop inp then enterSentence g4 else Some g4) = Some g5"
    "sameSel g4 g5"
    using enterSentence_kept [OF ch] r4
    by (cases "justRightTop inp") (auto intro: sameSel_kept sameSel_refl)
  define g8 where "g8 = (tapIf (justLeftRight inp) ''right''
                 (tapIf (justLeftLeft inp) ''left''
                   (tapIf (justLeftBottom inp) ''down''
                     (tapIf (justLeftTop inp) ''up'' g5))))\<lparr>currentSet := (if pressedButton4 inp then 1 else 0),
                        uppercase := pressedButton5 inp\<rparr>"
  have s15: "sameSel g1 g5" using g2(2) g3(2) g4(2) g5(2) sameSel_trans by blast
  have r8: "ready g8" "selectedRing g8 = selectedRing g1" "selectedIndex g8 = selectedIndex g1"
    using s15 by (auto simp: g8_def sameSel_def ready_def tapIf_def)
  obtain g9 where g9: "(if justButton7 inp then acceptPrediction (envButton7 inp) g8 else Some g8) = Some g9"
    "sameSel g8 g9"
    using acceptPrediction_kept [of "envButton7 inp" g8] r8(1)
    by (cases "justButton7 inp") (auto intro: sameSel_kept sameSel_refl)
  have "padUpdate inp g = Some g9"
    unfolding padUpdate_def Let_def
    using g1(1) g2(1) g3(1) g4(1) g5(1) g9(1) [unfolded g8_def]
    by (cases "pressedButton4 inp") simp_all
  then show ?thesis using g1(1) g9(2) r8 by (auto simp: sameSel_def)
qed

section \<open>The start returns\<close>

lemma sentenceLoop_Some:
  "\<exists>c' fr'. sentenceLoop ss (Some c, fr) = Some (Some c', fr')"
proof (induction ss arbitrary: c fr)
  case Nil
  then show ?case by simp
next
  case (Cons s ss)
  show ?case
    using Cons.IH by (simp add: Let_def)
qed

lemma loadRawTextAndTrain_Some:
  assumes "markovChain g = Some ch"
  shows "\<exists>e c' fr'. loadRawTextAndTrain rd g = Some (e, g\<lparr>markovChain := Some c', wordFrequency := fr'\<rparr>)"
proof -
  have same: "g\<lparr>markovChain := Some ch, wordFrequency := wordFrequency g\<rparr> = g"
    using assms by simp
  have unchanged: "\<exists>c' fr'. g = g\<lparr>markovChain := Some c', wordFrequency := fr'\<rparr>"
    using same by metis
  show ?thesis
  proof (cases rd)
    case (Data raw)
    obtain c' fr' where "sentenceLoop (FieldsFunc raw sentenceEnd) (Some ch, wordFrequency g) = Some (Some c', fr')"
      using sentenceLoop_Some by blast
    then show ?thesis using Data assms unchanged
      by (cases "raw = []") (auto simp: loadRawTextAndTrain_def)
  qed (use unchanged in \<open>auto simp: loadRawTextAndTrain_def\<close>)
qed

lemma loadTrainingData_fields:
  "\<exists>td. snd (loadTrainingData rd g) = g\<lparr>trainingData := td\<rparr>"
proof -
  have same: "\<exists>td. g = g\<lparr>trainingData := td\<rparr>"
    by (rule exI [of _ "trainingData g"]) simp
  show ?thesis
  proof (cases rd)
    case (Data d)
    then show ?thesis by (cases d) (auto simp: loadTrainingData_def)
  qed (use same in \<open>auto simp: loadTrainingData_def\<close>)
qed

lemma initialize_Some:
  "\<exists>g' ch. initialize st g = Some g' \<and> markovChain g' = Some ch \<and>
        currentSet g' = currentSet g \<and> selectedRing g' = selectedRing g \<and>
        selectedIndex g' = selectedIndex g \<and> currentSentence g' = currentSentence g \<and>
        effects g' = effects g"
proof -
  define g1 where "g1 = g\<lparr>markovChain := Some NewChain, wordFrequency := (\<lambda>w. 0)\<rparr>"
  obtain td where td: "snd (loadTrainingData (trainingFile st) g1) = g1\<lparr>trainingData := td\<rparr>"
    using loadTrainingData_fields by blast
  define g3 where "g3 = (if len (trainingData (g1\<lparr>trainingData := td\<rparr>)) = 0
                         then g1\<lparr>trainingData := td\<rparr>\<lparr>trainingData := seedSentences\<rparr>
                         else g1\<lparr>trainingData := td\<rparr>)"
  define trained where "trained = trainLoop (trainingData g3) (NewChain, wordFrequency g3)"
  define g4 where "g4 = g3\<lparr>markovChain := Some (fst trained), wordFrequency := snd trained\<rparr>"
  have f4: "currentSet g4 = currentSet g" "selectedRing g4 = selectedRing g"
    "selectedIndex g4 = selectedIndex g" "currentSentence g4 = currentSentence g"
    "effects g4 = effects g" "markovChain g4 = Some (fst trained)"
    by (simp_all add: g4_def g3_def g1_def)
  obtain e c' fr' where l: "loadRawTextAndTrain (rawTextFile st) g4
        = Some (e, g4\<lparr>markovChain := Some c', wordFrequency := fr'\<rparr>)"
    using loadRawTextAndTrain_Some [OF f4(6)] by blast
  obtain p where p: "updatePrediction (envStart st) (g4\<lparr>markovChain := Some c', wordFrequency := fr'\<rparr>)
        = Some (g4\<lparr>markovChain := Some c', wordFrequency := fr', nextPrediction := p\<rparr>)"
    using updatePrediction_Some [of "envStart st" "g4\<lparr>markovChain := Some c', wordFrequency := fr'\<rparr>"] by auto
  have "initialize st g = Some (g4\<lparr>markovChain := Some c', wordFrequency := fr', nextPrediction := p\<rparr>)"
    unfolding initialize_def Let_def g1_def [symmetric] td
    using l p by (simp add: g4_def trained_def g3_def)
  then show ?thesis using f4 by auto
qed

lemma ready_iff: "ready g = (wellFormed g \<and> markovChain g \<noteq> None)"
  by (auto simp: ready_def wellFormed_def)

lemma padLoop_dead:
  assumes "ready g" "list_all deadZone pads"
  shows "\<exists>g'. padLoop pads g = Some g' \<and> ready g' \<and>
           selectedIndex g' = selectedIndex g \<and> selectedRing g' = selectedRing g"
  using assms
proof (induction pads arbitrary: g)
  case Nil
  then show ?case by simp
next
  case (Cons inp pads)
  have d: "updateSelection (leftStickHorizontal inp) (leftStickVertical inp) g = Some g"
    using Cons.prems(2) by (simp add: deadZone_def updateSelection_dead)
  obtain g1 where g1: "padUpdate inp g = Some g1" "ready g1"
     "selectedRing g1 = selectedRing g" "selectedIndex g1 = selectedIndex g"
    using padUpdate_Some [OF Cons.prems(1), of inp] d by auto
  obtain g' where "padLoop pads g1 = Some g'" "ready g'"
     "selectedIndex g' = selectedIndex g1" "selectedRing g' = selectedRing g1"
    using Cons.IH [OF g1(2)] Cons.prems(2) by auto
  then show ?case using g1 by simp
qed

lemma Update_dead:
  assumes "wellFormed g" "list_all deadZone pads"
  shows "\<exists>g'. Update st pads g = Some g' \<and> ready g' \<and>
           selectedIndex g' = selectedIndex g \<and> selectedRing g' = selectedRing g"
proof (cases "markovChain g")
  case None
  obtain g1 ch where i: "initialize st g = Some g1" "markovChain g1 = Some ch"
        "currentSet g1 = currentSet g" "selectedRing g1 = selectedRing g"
        "selectedIndex g1 = selectedIndex g"
    using initialize_Some by blast
  then have r: "ready g1" using assms(1) by (simp add: ready_def wellFormed_def)
  from padLoop_dead [OF r assms(2)] show ?thesis
    using None i by (auto simp: Update_def)
next
  case (Some ch)
  then have r: "ready g" using assms(1) by (simp add: ready_iff)
  from padLoop_dead [OF r assms(2)] show ?thesis
    using Some by (auto simp: Update_def)
qed

text \<open>
  Claim C3. With the left stick within the dead zone, that is with
  \<open>\<surd>(x\<^sup>2 + y\<^sup>2) \<le> 0.1\<close> whatever the angle, a call for a gamepad returns and leaves
  \<open>selectedIndex\<close> and \<open>selectedRing\<close> as they were, and so does any sequence of calls of
  \<open>Update\<close> in which every gamepad is within the dead zone, the first call with its start
  included.
\<close>

theorem dead_zone_holds_selection:
  "(ready g \<and> deadZone inp \<longrightarrow>
      (\<exists>g'. padUpdate inp g = Some g' \<and>
            selectedIndex g' = selectedIndex g \<and> selectedRing g' = selectedRing g)) \<and>
   (wellFormed h \<and> list_all (\<lambda>call. list_all deadZone (snd call)) calls \<longrightarrow>
      (\<exists>h'. UpdateSeq calls h = Some h' \<and>
            selectedIndex h' = selectedIndex h \<and> selectedRing h' = selectedRing h))"
proof (intro conjI impI)
  assume a: "ready g \<and> deadZone inp"
  then have d: "updateSelection (leftStickHorizontal inp) (leftStickVertical inp) g = Some g"
    by (simp add: deadZone_def updateSelection_dead)
  from padUpdate_Some [of g inp] a d
  show "\<exists>g'. padUpdate inp g = Some g' \<and>
            selectedIndex g' = selectedIndex g \<and> selectedRing g' = selectedRing g"
    by auto
next
  assume "wellFormed h \<and> list_all (\<lambda>call. list_all deadZone (snd call)) calls"
  then have "\<exists>h'. UpdateSeq calls h = Some h' \<and> wellFormed h' \<and>
            selectedIndex h' = selectedIndex h \<and> selectedRing h' = selectedRing h"
  proof (induction calls arbitrary: h)
    case Nil
    then show ?case by simp
  next
    case (Cons call calls)
    obtain st pads where c: "call = (st, pads)" by (cases call)
    obtain h1 where h1: "Update st pads h = Some h1" "ready h1"
       "selectedIndex h1 = selectedIndex h" "selectedRing h1 = selectedRing h"
      using Update_dead [of h pads st] Cons.prems c by auto
    have "wellFormed h1" using h1(2) by (simp add: ready_iff)
    then obtain h' where "UpdateSeq calls h1 = Some h'" "wellFormed h'"
       "selectedIndex h' = selectedIndex h1" "selectedRing h' = selectedRing h1"
      using Cons.IH [of h1] Cons.prems by auto
    then show ?case using h1 c by simp
  qed
  then show "\<exists>h'. UpdateSeq calls h = Some h' \<and>
            selectedIndex h' = selectedIndex h \<and> selectedRing h' = selectedRing h"
    by blast
qed

section \<open>Magnitudes of concrete vectors\<close>

lemma magnitudeOf_le: "0 \<le> r \<Longrightarrow> x * x + y * y \<le> r * r \<Longrightarrow> magnitudeOf x y \<le> r"
  by (simp add: magnitudeOf_def Sqrt_def real_le_lsqrt power2_eq_square)

lemma magnitudeOf_gt: "0 \<le> r \<Longrightarrow> r * r < x * x + y * y \<Longrightarrow> r < magnitudeOf x y"
  by (simp add: magnitudeOf_def Sqrt_def real_less_rsqrt power2_eq_square)

lemma magnitudeOf_lt: "0 < r \<Longrightarrow> x * x + y * y < r * r \<Longrightarrow> magnitudeOf x y < r"
  by (simp add: magnitudeOf_def Sqrt_def real_less_lsqrt power2_eq_square)

lemma magnitudeOf_axis: "0 \<le> x \<Longrightarrow> magnitudeOf x 0 = x"
  by (simp add: magnitudeOf_def Sqrt_def)

theorem dead_zone_holds_selection_witness:
  "(\<exists>g'. padUpdate (idleInput\<lparr>leftStickHorizontal := 0.06, leftStickVertical := 0.08, justRightBottom := True,
                                timeNow := 1000000000\<rparr>)
            (startedGame\<lparr>selectedRing := 1, selectedIndex := 5\<rparr>) = Some g' \<and>
         selectedIndex g' = 5 \<and> selectedRing g' = 1) \<and>
   (\<exists>g'. UpdateSeq [(noFiles, [idleInput\<lparr>leftStickHorizontal := 0.06, leftStickVertical := 0.08\<rparr>]),
                    (noFiles, [idleInput\<lparr>leftStickHorizontal := - 0.1\<rparr>, idleInput])]
            (newGame\<lparr>selectedRing := 1, selectedIndex := 5\<rparr>) = Some g' \<and>
         selectedIndex g' = 5 \<and> selectedRing g' = 1)"
proof -
  have m1: "magnitudeOf 0.06 0.08 \<le> 0.1" by (rule magnitudeOf_le) simp_all
  have m2: "magnitudeOf (- 0.1) 0 \<le> 0.1" by (rule magnitudeOf_le) simp_all
  have m3: "magnitudeOf 0 0 \<le> 0.1" by (rule magnitudeOf_le) simp_all
  have r: "ready (startedGame\<lparr>selectedRing := 1, selectedIndex := 5\<rparr>)"
    by (simp add: ready_def startedGame_def newGame_def)
  have w: "wellFormed (newGame\<lparr>selectedRing := 1, selectedIndex := 5\<rparr>)"
    by (simp add: wellFormed_def newGame_def)
  show ?thesis
    using dead_zone_holds_selection
            [of "startedGame\<lparr>selectedRing := 1, selectedIndex := 5\<rparr>"
                "idleInput\<lparr>leftStickHorizontal := 0.06, leftStickVertical := 0.08, justRightBottom := True,
                                timeNow := 1000000000\<rparr>"
                "newGame\<lparr>selectedRing := 1, selectedIndex := 5\<rparr>"
                "[(noFiles, [idleInput\<lparr>leftStickHorizontal := 0.06, leftStickVertical := 0.08\<rparr>]),
                    (noFiles, [idleInput\<lparr>leftStickHorizontal := - 0.1\<rparr>, idleInput])]"]
          m1 m2 m3 r w
    by (simp add: deadZone_def idleInput_def startedGame_def newGame_def)
qed

text \<open>
  Claim C2, as the code has it. For a stick outside the dead zone, a magnitude strictly
  below 0.9 selects the inner ring and a magnitude of 0.9 or more selects the outer ring:
  the boundary itself belongs to the outer ring. The call for the gamepad returns with
  that ring.
\<close>

theorem ring_boundary_selects_outer:
  assumes "ready g" "\<not> deadZone inp"
  shows "\<exists>g1 g'. updateSelection (leftStickHorizontal inp) (leftStickVertical inp) g = Some g1 \<and>
           padUpdate inp g = Some g' \<and> selectedRing g' = selectedRing g1 \<and>
           (magnitudeOf (leftStickHorizontal inp) (leftStickVertical inp) < 0.9
              \<longrightarrow> selectedRing g1 = 0) \<and>
           (magnitudeOf (leftStickHorizontal inp) (leftStickVertical inp) \<ge> 0.9
              \<longrightarrow> selectedRing g1 = 1)"
proof -
  have m: "magnitudeOf (leftStickHorizontal inp) (leftStickVertical inp) > 0.1"
    using assms(2) by (simp add: deadZone_def)
  have cs: "currentSet g = 0 \<or> currentSet g = 1" using assms(1) by (simp add: ready_def)
  from updateSelection_live [OF m cs] obtain ring where
    "ringAt (currentSet g) (if magnitudeOf (leftStickHorizontal inp) (leftStickVertical inp) < 0.9 then 0 else 1) = Some ring"
    "ring \<noteq> []" and
    u: "updateSelection (leftStickHorizontal inp) (leftStickVertical inp) g =
          Some (g\<lparr>selectedRing := (if magnitudeOf (leftStickHorizontal inp) (leftStickVertical inp) < 0.9 then 0 else 1),
                  joystickAngle := specAngle (leftStickHorizontal inp) (leftStickVertical inp),
                  selectedIndex := specIndex (specAngle (leftStickHorizontal inp) (leftStickVertical inp)) (length ring)\<rparr>)"
    by blast
  from padUpdate_Some [OF assms(1), of inp] u show ?thesis by auto
qed

theorem ring_boundary_selects_outer_witness:
  "(\<exists>g'. padUpdate (idleInput\<lparr>leftStickHorizontal := 0.5\<rparr>) (startedGame\<lparr>selectedRing := 1\<rparr>) = Some g' \<and>
         selectedRing g' = 0) \<and>
   (\<exists>g'. padUpdate (idleInput\<lparr>leftStickHorizontal := 1\<rparr>) startedGame = Some g' \<and>
         selectedRing g' = 1)"
proof -
  have m1: "magnitudeOf 0.5 0 = 0.5" "magnitudeOf 1 0 = 1"
    by (simp_all add: magnitudeOf_axis)
  have r: "ready (startedGame\<lparr>selectedRing := 1\<rparr>)" "ready startedGame"
    by (simp_all add: ready_def startedGame_def newGame_def)
  show ?thesis
    using ring_boundary_selects_outer [OF r(1), of "idleInput\<lparr>leftStickHorizontal := 0.5\<rparr>"]
          ring_boundary_selects_outer [OF r(2), of "idleInput\<lparr>leftStickHorizontal := 1\<rparr>"]
          m1
    by (auto simp: deadZone_def idleInput_def)
qed

text \<open>
  Claim C2 as stated fails at the boundary: with the stick at \<open>(0.9, 0)\<close> the magnitude is
  exactly 0.9 and the ring selected is the outer ring 1, not the inner ring 0.
\<close>

theorem ring_boundary_inner_counterexample:
  "magnitudeOf 0.9 0 = 0.9 \<and>
   map_option selectedRing (updateSelection 0.9 0 (startedGame\<lparr>selectedRing := 0\<rparr>)) = Some 1 \<and>
   map_option selectedRing (padUpdate (idleInput\<lparr>leftStickHorizontal := 0.9\<rparr>) (startedGame\<lparr>selectedRing := 0\<rparr>))
     = Some 1"
proof -
  have m: "magnitudeOf 0.9 0 = 0.9" by (simp add: magnitudeOf_axis)
  have r: "ready (startedGame\<lparr>selectedRing := 0\<rparr>)"
    by (simp add: ready_def startedGame_def newGame_def)
  have cs: "currentSet (startedGame\<lparr>selectedRing := 0\<rparr>) = 0 \<or> currentSet (startedGame\<lparr>selectedRing := 0\<rparr>) = 1"
    using r by (simp add: ready_def)
  have live: "magnitudeOf 0.9 0 > 0.1" using m by simp
  from updateSelection_live [OF live cs] m
  have u: "map_option selectedRing (updateSelection 0.9 0 (startedGame\<lparr>selectedRing := 0\<rparr>)) = Some 1"
    by auto
  from padUpdate_Some [OF r, of "idleInput\<lparr>leftStickHorizontal := 0.9\<rparr>"] u
  have "map_option selectedRing (padUpdate (idleInput\<lparr>leftStickHorizontal := 0.9\<rparr>) (startedGame\<lparr>selectedRing := 0\<rparr>))
     = Some 1"
    by (auto simp: idleInput_def)
  then show ?thesis using m u by simp
qed

section \<open>The angle and the index\<close>

lemma specIndex_bounds: "0 < n \<Longrightarrow> 0 \<le> specIndex a n \<and> specIndex a n < int n"
  by (simp add: specIndex_def)

lemma arctan_polar:
  assumes "x \<noteq> 0"
  shows "sqrt (x * x + y * y) * cos (arctan (y / x)) = \<bar>x\<bar>"
    and "sqrt (x * x + y * y) * sin (arctan (y / x)) = \<bar>x\<bar> * (y / x)"
proof -
  have pos: "0 < 1 + (y / x)\<^sup>2" by (simp add: add_pos_nonneg)
  have "x * x + y * y = (x * x) * (1 + (y / x)\<^sup>2)"
    using assms by (simp add: field_simps power2_eq_square)
  then have s: "sqrt (x * x + y * y) = \<bar>x\<bar> * sqrt (1 + (y / x)\<^sup>2)"
    by (simp add: real_sqrt_mult)
  have nz: "sqrt (1 + (y / x)\<^sup>2) \<noteq> 0" using pos by simp
  show "sqrt (x * x + y * y) * cos (arctan (y / x)) = \<bar>x\<bar>"
    using nz by (simp add: s cos_arctan)
  show "sqrt (x * x + y * y) * sin (arctan (y / x)) = \<bar>x\<bar> * (y / x)"
    using nz by (simp add: s sin_arctan)
qed

lemma Atan2_polar:
  "sqrt (x * x + y * y) * cos (Atan2 y x) = x \<and> sqrt (x * x + y * y) * sin (Atan2 y x) = y"
proof (cases "y = 0")
  case True
  then show ?thesis by (simp add: Atan2_def)
next
  case yn: False
  show ?thesis
  proof (cases "x = 0")
    case True
    then show ?thesis using yn by (simp add: Atan2_def)
  next
    case xn: False
    note p = arctan_polar [OF xn, of y]
    show ?thesis
    proof (cases "x < 0")
      case True
      then show ?thesis using yn xn p
        by (auto simp: Atan2_def Let_def cos_diff sin_diff cos_add sin_add algebra_simps)
    next
      case False
      then show ?thesis using yn xn p
        by (auto simp: Atan2_def Let_def)
    qed
  qed
qed

lemma specAngle_polar:
  "magnitudeOf x y * sin (specAngle x y) = x \<and> magnitudeOf x y * cos (specAngle x y) = - y"
  using Atan2_polar [of "- y" x]
  by (simp add: specAngle_def magnitudeOf_def Sqrt_def add.commute)

text \<open>
  Claim C4. For a stick outside the dead zone the angle stored is atan2(x, -y) with
  \<open>2\<pi>\<close> added when it is negative, it lies in \<open>[0, 2\<pi>)\<close>, and the index selected is
  \<open>floor(angle / (2\<pi> / N)) mod N\<close> for the length \<open>N\<close> of the ring that is active: the
  ring just selected by the magnitude, in the set of the state. The call for the gamepad
  returns with that index, which is an index of the ring. The angle is the direction of
  the stick, from the top and clockwise: the stick is at \<open>(m sin angle, - m cos angle)\<close>
  for its magnitude \<open>m\<close>.
\<close>

theorem selection_angle_and_index:
  assumes "ready g" "\<not> deadZone inp"
  shows "\<exists>g1 g' ring.
           updateSelection (leftStickHorizontal inp) (leftStickVertical inp) g = Some g1 \<and>
           padUpdate inp g = Some g' \<and>
           ringAt (currentSet g) (selectedRing g1) = Some ring \<and> ring \<noteq> [] \<and>
           joystickAngle g1 = specAngle (leftStickHorizontal inp) (leftStickVertical inp) \<and>
           0 \<le> joystickAngle g1 \<and> joystickAngle g1 < 2 * pi \<and>
           magnitudeOf (leftStickHorizontal inp) (leftStickVertical inp) * sin (joystickAngle g1)
             = leftStickHorizontal inp \<and>
           magnitudeOf (leftStickHorizontal inp) (leftStickVertical inp) * cos (joystickAngle g1)
             = - leftStickVertical inp \<and>
           selectedIndex g1 = specIndex (joystickAngle g1) (length ring) \<and>
           selectedIndex g' = selectedIndex g1 \<and> selectedRing g' = selectedRing g1 \<and>
           0 \<le> selectedIndex g' \<and> selectedIndex g' < int (length ring)"
proof -
  have m: "magnitudeOf (leftStickHorizontal inp) (leftStickVertical inp) > 0.1"
    using assms(2) by (simp add: deadZone_def)
  have cs: "currentSet g = 0 \<or> currentSet g = 1" using assms(1) by (simp add: ready_def)
  from updateSelection_live [OF m cs] obtain ring where
    ra: "ringAt (currentSet g) (if magnitudeOf (leftStickHorizontal inp) (leftStickVertical inp) < 0.9 then 0 else 1) = Some ring"
    and ne: "ring \<noteq> []" and
    u: "updateSelection (leftStickHorizontal inp) (leftStickVertical inp) g =
          Some (g\<lparr>selectedRing := (if magnitudeOf (leftStickHorizontal inp) (leftStickVertical inp) < 0.9 then 0 else 1),
                  joystickAngle := specAngle (leftStickHorizontal inp) (leftStickVertical inp),
                  selectedIndex := specIndex (specAngle (leftStickHorizontal inp) (leftStickVertical inp)) (length ring)\<rparr>)"
    by blast
  have b: "0 \<le> specIndex (specAngle (leftStickHorizontal inp) (leftStickVertical inp)) (length ring)"
       "specIndex (specAngle (leftStickHorizontal inp) (leftStickVertical inp)) (length ring) < int (length ring)"
    using specIndex_bounds [of "length ring"] ne by auto
  from padUpdate_Some [OF assms(1), of inp] u ra ne b
    specAngle_bounds [of "leftStickHorizontal inp" "leftStickVertical inp"]
    specAngle_polar [of "leftStickHorizontal inp" "leftStickVertical inp"]
  show ?thesis by auto
qed

lemma specAngle_right: "specAngle 1 0 = pi / 2"
  by (simp add: specAngle_def Atan2_def)

lemma specIndex_right: "specIndex (pi / 2) 26 = 6"
proof -
  have "(pi / 2) / ((2 * pi) / real 26) = 13 / 2" by simp
  then show ?thesis by (simp add: specIndex_def)
qed

theorem selection_angle_and_index_witness:
  "\<exists>g'. padUpdate (idleInput\<lparr>leftStickHorizontal := 1\<rparr>) startedGame = Some g' \<and>
        selectedRing g' = 1 \<and> selectedIndex g' = 6"
proof -
  have m1: "magnitudeOf 1 0 = 1" by (simp add: magnitudeOf_axis)
  have r: "ready startedGame" by (simp add: ready_def startedGame_def newGame_def)
  have c0: "currentSet startedGame = 0" by (simp add: startedGame_def newGame_def)
  have nd: "\<not> deadZone (idleInput\<lparr>leftStickHorizontal := 1\<rparr>)"
    using m1 by (simp add: deadZone_def idleInput_def)
  from selection_angle_and_index [OF r nd] obtain g1 g' ring where
    h: "updateSelection 1 0 startedGame = Some g1"
       "padUpdate (idleInput\<lparr>leftStickHorizontal := 1\<rparr>) startedGame = Some g'"
       "ringAt (currentSet startedGame) (selectedRing g1) = Some ring"
       "joystickAngle g1 = specAngle 1 0"
       "selectedIndex g1 = specIndex (joystickAngle g1) (length ring)"
       "selectedIndex g' = selectedIndex g1" "selectedRing g' = selectedRing g1"
    by (auto simp: idleInput_def)
  have live: "magnitudeOf 1 0 > 0.1" using m1 by simp
  have cs: "currentSet startedGame = 0 \<or> currentSet startedGame = 1" using c0 by simp
  from updateSelection_live [OF live cs] h(1) m1 have s1: "selectedRing g1 = 1" by auto
  have "length ring = 26" using h(3) s1 c0 ringAt_Some [of 0 1] by auto
  moreover have "joystickAngle g1 = pi / 2" using h(4) by (simp only: specAngle_right)
  ultimately have "selectedIndex g1 = 6" using h(5) by (simp only: specIndex_right)
  then show ?thesis using h(2,6,7) s1 by simp
qed

section \<open>Debounce\<close>

lemma updateSelection_frame:
  assumes "ready g"
  shows "\<exists>g1 ring. updateSelection x y g = Some g1 \<and> ready g1 \<and>
           lastButtonTime g1 = lastButtonTime g \<and> effects g1 = effects g \<and>
           currentSentence g1 = currentSentence g \<and> currentSet g1 = currentSet g \<and>
           ringAt (currentSet g1) (selectedRing g1) = Some ring \<and>
           (magnitudeOf x y > 0.1 \<longrightarrow> selectedIndex g1 < len ring)"
proof (cases "magnitudeOf x y > 0.1")
  case True
  have cs: "currentSet g = 0 \<or> currentSet g = 1" using assms by (simp add: ready_def)
  from updateSelection_live [OF True cs] obtain ring where
    ra: "ringAt (currentSet g) (if magnitudeOf x y < 0.9 then 0 else 1) = Some ring"
    and ne: "ring \<noteq> []"
    and u: "updateSelection x y g =
             Some (g\<lparr>selectedRing := (if magnitudeOf x y < 0.9 then 0 else 1),
                     joystickAngle := specAngle x y,
                     selectedIndex := specIndex (specAngle x y) (length ring)\<rparr>)"
    by blast
  have b: "0 \<le> specIndex (specAngle x y) (length ring)"
       "specIndex (specAngle x y) (length ring) < len ring"
    using specIndex_bounds [of "length ring"] ne by (auto simp: len_def)
  show ?thesis using u ra b assms by (auto simp: ready_def)
next
  case False
  obtain ring where "ringAt (currentSet g) (selectedRing g) = Some ring"
    using assms ringAt_Some [of "currentSet g" "selectedRing g"] by (auto simp: ready_def)
  then show ?thesis using False assms updateSelection_dead [of x y g] by simp
qed

lemma padUpdate_onlyConfirm:
  assumes "onlyConfirm inp"
  shows "padUpdate inp g = do {
     g1 \<leftarrow> updateSelection (leftStickHorizontal inp) (leftStickVertical inp) g;
     g2 \<leftarrow> confirmSelection (envRightBottom inp) (timeNow inp)
             (magnitudeOf (leftStickHorizontal inp) (leftStickVertical inp)) g1;
     Some (g2\<lparr>currentSet := (if pressedButton4 inp then 1 else 0), uppercase := pressedButton5 inp\<rparr>) }"
  using assms by (simp add: padUpdate_def onlyConfirm_def tapIf_def Let_def)

lemma keystrokes_set_fields [simp]:
  "keystrokes (g\<lparr>currentSet := s, uppercase := u\<rparr>) = keystrokes g"
  "keystrokes (g\<lparr>lastButtonTime := t\<rparr>) = keystrokes g"
  by (simp_all add: keystrokes_def)

text \<open>
  Claim C5. A press of the confirm button at most 200 ms after the time of the last
  confirmed press changes nothing: it returns, sends no key and leaves the state as it
  is. So when a press is taken with the stick outside the dead zone and a second press
  follows within the window, the two calls send exactly one key between them.
\<close>

theorem debounce_discards_commit:
  "(Sub t (lastButtonTime h) \<le> 200 * Millisecond \<longrightarrow> confirmSelection env t m h = Some h) \<and>
   (ready g \<and> onlyConfirm inp1 \<and> onlyConfirm inp2 \<and> \<not> deadZone inp1 \<and>
    Sub (timeNow inp1) (lastButtonTime g) > 200 * Millisecond \<and>
    Sub (timeNow inp2) (timeNow inp1) \<le> 200 * Millisecond \<longrightarrow>
      (\<exists>g1 g2. padUpdate inp1 g = Some g1 \<and> padUpdate inp2 g1 = Some g2 \<and>
         lastButtonTime g1 = timeNow inp1 \<and>
         length (keystrokes g1) = length (keystrokes g) + 1 \<and>
         keystrokes g2 = keystrokes g1 \<and> currentSentence g2 = currentSentence g1))"
proof (intro conjI impI)
  assume "Sub t (lastButtonTime h) \<le> 200 * Millisecond"
  then show "confirmSelection env t m h = Some h"
    by (rule confirmSelection_debounced)
next
  assume a: "ready g \<and> onlyConfirm inp1 \<and> onlyConfirm inp2 \<and> \<not> deadZone inp1 \<and>
    Sub (timeNow inp1) (lastButtonTime g) > 200 * Millisecond \<and>
    Sub (timeNow inp2) (timeNow inp1) \<le> 200 * Millisecond"
  let ?m1 = "magnitudeOf (leftStickHorizontal inp1) (leftStickVertical inp1)"
  let ?m2 = "magnitudeOf (leftStickHorizontal inp2) (leftStickVertical inp2)"
  have live: "?m1 > 0.1" using a by (simp add: deadZone_def)
  from a have rg: "ready g" by simp
  from updateSelection_frame [OF rg, of "leftStickHorizontal inp1" "leftStickVertical inp1"] live
  obtain s1 ring where
    s1: "updateSelection (leftStickHorizontal inp1) (leftStickVertical inp1) g = Some s1"
        "ready s1" "lastButtonTime s1 = lastButtonTime g" "effects s1 = effects g"
        "ringAt (currentSet s1) (selectedRing s1) = Some ring" "selectedIndex s1 < len ring"
    by auto
  have t1: "Sub (timeNow inp1) (lastButtonTime s1) > 200 * Millisecond" using a s1(3) by simp
  from confirmSelection_accepted [OF s1(2) t1 live s1(5,6), of "envRightBottom inp1"]
  obtain c1 es where
    c1: "kept s1 c1" "effects c1 = effects s1 @ es" "length (filter isKeystroke es) = 1"
        "confirmSelection (envRightBottom inp1) (timeNow inp1) ?m1 s1 = Some (c1\<lparr>lastButtonTime := timeNow inp1\<rparr>)"
    by blast
  define g1 where "g1 = c1\<lparr>lastButtonTime := timeNow inp1,
      currentSet := (if pressedButton4 inp1 then 1 else 0), uppercase := pressedButton5 inp1\<rparr>"
  have p1: "padUpdate inp1 g = Some g1"
    using a s1(1) c1(4) by (simp add: padUpdate_onlyConfirm g1_def)
  have k1: "length (keystrokes g1) = length (keystrokes g) + 1"
    using c1(2,3) s1(4) by (simp add: g1_def keystrokes_def)
  have r1: "ready g1" using kept_ready [OF c1(1) s1(2)] by (simp add: g1_def ready_def)
  have l1: "lastButtonTime g1 = timeNow inp1" by (simp add: g1_def)
  from updateSelection_frame [OF r1, of "leftStickHorizontal inp2" "leftStickVertical inp2"]
  obtain s2 where
    s2: "updateSelection (leftStickHorizontal inp2) (leftStickVertical inp2) g1 = Some s2"
        "lastButtonTime s2 = lastButtonTime g1" "effects s2 = effects g1"
        "currentSentence s2 = currentSentence g1"
    by auto
  have d: "confirmSelection (envRightBottom inp2) (timeNow inp2) ?m2 s2 = Some s2"
    using a s2(2) l1 by (simp add: confirmSelection_debounced)
  define g2 where "g2 = s2\<lparr>currentSet := (if pressedButton4 inp2 then 1 else 0), uppercase := pressedButton5 inp2\<rparr>"
  have p2: "padUpdate inp2 g1 = Some g2"
    using a s2(1) d by (simp add: padUpdate_onlyConfirm g2_def)
  have "keystrokes g2 = keystrokes g1" "currentSentence g2 = currentSentence g1"
    using s2(3,4) by (simp_all add: g2_def keystrokes_def)
  then show "\<exists>g1 g2. padUpdate inp1 g = Some g1 \<and> padUpdate inp2 g1 = Some g2 \<and>
         lastButtonTime g1 = timeNow inp1 \<and>
         length (keystrokes g1) = length (keystrokes g) + 1 \<and>
         keystrokes g2 = keystrokes g1 \<and> currentSentence g2 = currentSentence g1"
    using p1 p2 k1 l1 by blast
qed

lemma Sub_examples:
  "Sub 1000000000 0 > 200 * Millisecond" "Sub 1100000000 1000000000 \<le> 200 * Millisecond"
  by (simp_all add: Sub_def Millisecond_def)

theorem debounce_discards_commit_witness:
  "confirmSelection noDraw 1100000000 1 (startedGame\<lparr>lastButtonTime := 1000000000\<rparr>)
     = Some (startedGame\<lparr>lastButtonTime := 1000000000\<rparr>) \<and>
   (\<exists>g1 g2.
      padUpdate (idleInput\<lparr>leftStickHorizontal := 1, justRightBottom := True, timeNow := 1000000000\<rparr>)
        startedGame = Some g1 \<and>
      padUpdate (idleInput\<lparr>leftStickHorizontal := 1, justRightBottom := True, timeNow := 1100000000\<rparr>)
        g1 = Some g2 \<and>
      length (keystrokes g1) = 1 \<and> keystrokes g2 = keystrokes g1)"
proof -
  have m1: "magnitudeOf 1 0 = 1" by (simp add: magnitudeOf_axis)
  have r: "ready startedGame" by (simp add: ready_def startedGame_def newGame_def)
  show ?thesis
    using debounce_discards_commit
            [of 1100000000 "startedGame\<lparr>lastButtonTime := 1000000000\<rparr>" noDraw 1 startedGame
                "idleInput\<lparr>leftStickHorizontal := 1, justRightBottom := True, timeNow := 1000000000\<rparr>"
                "idleInput\<lparr>leftStickHorizontal := 1, justRightBottom := True, timeNow := 1100000000\<rparr>"]
          m1 r Sub_examples
    by (simp add: onlyConfirm_def deadZone_def idleInput_def keystrokes_def startedGame_def newGame_def)
       blast
qed

section \<open>Backspace with nothing to remove\<close>

lemma padUpdate_onlyBackspace:
  assumes "onlyBackspace inp"
  shows "padUpdate inp g = do {
     g1 \<leftarrow> updateSelection (leftStickHorizontal inp) (leftStickVertical inp) g;
     g2 \<leftarrow> trackBackspace (envRightRight inp) g1;
     Some (g2\<lparr>currentSet := (if pressedButton4 inp then 1 else 0), uppercase := pressedButton5 inp\<rparr>) }"
  using assms by (simp add: padUpdate_def onlyBackspace_def tapIf_def Let_def)

lemma trackBackspace_unchanged:
  assumes "currentSentence g = [] \<or> (\<exists>ws. currentSentence g = ws @ [[]])"
  shows "\<exists>g'. trackBackspace env g = Some g' \<and> currentSentence g' = currentSentence g \<and>
           effects g' = effects g @ [KeyTap ''backspace'']"
proof -
  have "backspaceSentence (currentSentence g) = Some (currentSentence g)"
    using assms backspaceSentence_Nil backspaceSentence_empty_last by auto
  from trackBackspace_Some [OF this, of env] show ?thesis by auto
qed

text \<open>
  Claim C10. A backspace when there is no word, or when the last word is the empty
  string, does not panic and leaves the words as they are, under button B and under the
  delete token of a ring alike. The backspace key is still sent to the system and the
  prediction is computed again.
\<close>

theorem backspace_without_character_keeps_buffer:
  "(currentSentence g = [] \<or> (\<exists>ws. currentSentence g = ws @ [[]]) \<longrightarrow>
      (\<exists>g'. trackBackspace env g = Some g' \<and> commitToken env backspaceToken g = Some g' \<and>
            currentSentence g' = currentSentence g)) \<and>
   (ready h \<and> onlyBackspace inp \<and>
    (currentSentence h = [] \<or> (\<exists>ws. currentSentence h = ws @ [[]])) \<longrightarrow>
      (\<exists>h'. padUpdate inp h = Some h' \<and> currentSentence h' = currentSentence h))"
proof (intro conjI impI)
  assume a: "currentSentence g = [] \<or> (\<exists>ws. currentSentence g = ws @ [[]])"
  from trackBackspace_unchanged [OF a, of env]
  show "\<exists>g'. trackBackspace env g = Some g' \<and> commitToken env backspaceToken g = Some g' \<and>
            currentSentence g' = currentSentence g"
    by (auto simp: commitToken_def)
next
  assume a: "ready h \<and> onlyBackspace inp \<and>
    (currentSentence h = [] \<or> (\<exists>ws. currentSentence h = ws @ [[]]))"
  then have rh: "ready h" by simp
  from updateSelection_frame [OF rh, of "leftStickHorizontal inp" "leftStickVertical inp"]
  obtain s1 where
    s1: "updateSelection (leftStickHorizontal inp) (leftStickVertical inp) h = Some s1"
        "currentSentence s1 = currentSentence h"
    by auto
  have "currentSentence s1 = [] \<or> (\<exists>ws. currentSentence s1 = ws @ [[]])"
    using a s1(2) by simp
  from trackBackspace_unchanged [OF this, of "envRightRight inp"]
  obtain b1 where b1: "trackBackspace (envRightRight inp) s1 = Some b1"
      "currentSentence b1 = currentSentence s1"
    by blast
  have "padUpdate inp h = Some (b1\<lparr>currentSet := (if pressedButton4 inp then 1 else 0), uppercase := pressedButton5 inp\<rparr>)"
    using a s1(1) b1(1) by (simp add: padUpdate_onlyBackspace)
  then show "\<exists>h'. padUpdate inp h = Some h' \<and> currentSentence h' = currentSentence h"
    using b1(2) s1(2) by simp
qed

theorem backspace_without_character_keeps_buffer_witness:
  "map_option currentSentence (trackBackspace noDraw startedGame) = Some [] \<and>
   map_option currentSentence
     (padUpdate (idleInput\<lparr>justRightRight := True\<rparr>) (startedGame\<lparr>currentSentence := [''a'', []]\<rparr>))
     = Some [''a'', []]"
proof -
  have r: "ready (startedGame\<lparr>currentSentence := [''a'', []]\<rparr>)"
    by (simp add: ready_def startedGame_def newGame_def)
  have e: "\<exists>ws. [''a'', []] = ws @ [[] :: string]" by (rule exI [of _ "[''a'']"]) simp
  show ?thesis
    using backspace_without_character_keeps_buffer
            [of startedGame noDraw "startedGame\<lparr>currentSentence := [''a'', []]\<rparr>"
                "idleInput\<lparr>justRightRight := True\<rparr>"] r e
    by (auto simp: onlyBackspace_def idleInput_def startedGame_def newGame_def)
qed

section \<open>The loops of the training\<close>


lemma incrementLower_eq: "incrementLower ws fr = (\<lambda>w. fr w + count_list (map ToLower ws) w)"
  by (induction ws arbitrary: fr) (auto simp: fun_eq_iff)

lemma incrementNonEmpty_eq:
  "incrementNonEmpty ws fr = (\<lambda>w. fr w + count_list (map ToLower (filter (\<lambda>w. w \<noteq> []) ws)) w)"
  by (induction ws arbitrary: fr) (auto simp: fun_eq_iff)

lemma count_list_append [simp]: "count_list (xs @ ys) w = count_list xs w + count_list ys w"
  by (induction xs) auto

lemma trainLoop_eq:
  "trainLoop ss (ch, fr) =
     (ch @ concat (map adjacencies ss), (\<lambda>w. fr w + count_list (map ToLower (concat ss)) w))"
  by (induction ss arbitrary: ch fr) (auto simp: Add_def incrementLower_eq fun_eq_iff)




lemma Fields_Nil [simp]: "Fields [] = []"
  by (simp add: Fields_def FieldsFunc_def)







end
